theory Spec2Isabelle
  imports Complex_Main
begin

section \<open>Data model\<close>

text \<open>
  The download manager of the repository (the module the routes import as
  \<^verbatim>\<open>services/downloader.js\<close>, with \<^verbatim>\<open>services/disk.js\<close> and the tables of
  \<^verbatim>\<open>db/schema.ts\<close>) is embedded as state-passing functions.  Every exported
  \<^verbatim>\<open>async\<close> function is one atomic step on the state; the close and error events
  of a child process are separate steps (\<open>emitClose\<close>, \<open>emitError\<close>) that the
  environment may take later, and they run the handlers (\<open>onClose\<close>, \<open>onError\<close>)
  that \<^verbatim>\<open>spawnWget\<close> attached to the process.  The progress sampler on the
  process's error stream, which writes only \<^verbatim>\<open>bytesDownloaded\<close>, is left out.
  A JavaScript number that holds an integer is an \<open>int\<close>, and the result of every
  sum, difference and product is rounded to the nearest double (\<open>fl\<close>); the
  percentage of a progress report is the exact quotient.
\<close>

subsection \<open>JavaScript numbers\<close>

text \<open>
  A double has a significand of 53 bits.  \<open>fl x\<close> is the integer \<open>x\<close> rounded to the
  nearest integer of that form, a tie going to the even significand; it is \<open>x\<close>
  itself up to \<open>2^53\<close>.  \<open>toNumber\<close> also gives the infinities that the rounding
  overflows to.
\<close>

fun bitlen :: "nat \<Rightarrow> nat" where
  "bitlen n = (if n = 0 then 0 else Suc (bitlen (n div 2)))"

declare bitlen.simps [simp del]

definition ulp :: "int \<Rightarrow> int" where
  "ulp x = 2 ^ (bitlen (nat \<bar>x\<bar>) - 53)"

definition fl :: "int \<Rightarrow> int" where
  "fl x =
     (let u = ulp x; q = x div u; r = x mod u
      in if 2 * r < u then q * u
         else if u < 2 * r then (q + 1) * u
         else if even q then q * u else (q + 1) * u)"

datatype jsnum = Finite int | PosInf | NegInf | NaN

definition toNumber :: "int \<Rightarrow> jsnum" where
  "toNumber x =
     (let v = fl x
      in if v \<ge> 2 ^ 1024 then PosInf else if v \<le> - (2 ^ 1024) then NegInf else Finite v)"

fun jsSub :: "jsnum \<Rightarrow> jsnum \<Rightarrow> jsnum" where
  "jsSub (Finite x) (Finite y) = toNumber (x - y)"
| "jsSub NaN b = NaN"
| "jsSub a NaN = NaN"
| "jsSub PosInf PosInf = NaN"
| "jsSub NegInf NegInf = NaN"
| "jsSub PosInf b = PosInf"
| "jsSub NegInf b = NegInf"
| "jsSub (Finite x) PosInf = NegInf"
| "jsSub (Finite x) NegInf = PosInf"

definition positive :: "jsnum \<Rightarrow> bool" where
  "positive v = (case v of Finite n \<Rightarrow> n > 0 | PosInf \<Rightarrow> True | NegInf \<Rightarrow> False | NaN \<Rightarrow> False)"

text \<open>The order of the numbers, for stating results; NaN is not ordered.\<close>

definition jsLess :: "jsnum \<Rightarrow> jsnum \<Rightarrow> bool" where
  "jsLess a b =
     (case a of
        Finite x \<Rightarrow> (case b of Finite y \<Rightarrow> x < y | PosInf \<Rightarrow> True | NegInf \<Rightarrow> False | NaN \<Rightarrow> False)
      | PosInf \<Rightarrow> False
      | NegInf \<Rightarrow> (case b of Finite y \<Rightarrow> True | PosInf \<Rightarrow> True | NegInf \<Rightarrow> False | NaN \<Rightarrow> False)
      | NaN \<Rightarrow> False)"

definition negative :: "jsnum \<Rightarrow> bool" where
  "negative v = (case v of Finite n \<Rightarrow> n < 0 | PosInf \<Rightarrow> False | NegInf \<Rightarrow> True | NaN \<Rightarrow> False)"

subsection \<open>Tables of \<^verbatim>\<open>db/schema.ts\<close>\<close>

datatype status = Queued | Downloading | Paused | Completed | Failed

record download =
  id_col :: nat
  bookId :: "string option"
  status :: status
  filePath :: "string option"
  bytesDownloaded :: "int option"
  totalBytes :: "int option"
  pid :: "nat option"
  startedAt :: "nat option"
  completedAt :: "nat option"
  error :: "string option"

record catalogBook =
  book_id :: string
  book_date :: "string option"
  book_size :: "int option"
  book_url :: "string option"

record localZim =
  lz_id :: nat
  lz_filePath :: string
  lz_fileName :: string
  lz_fileSize :: "int option"
  lz_bookId :: "string option"
  lz_catalogDate :: "string option"
  lz_hasUpdate :: "bool option"
  lz_discoveredAt :: "nat option"
  lz_lastChecked :: "nat option"

subsection \<open>Child processes and the effects on them\<close>

record bookInfo =
  bi_bookId :: string
  bi_catalogDate :: "string option"
  bi_fileName :: string

text \<open>
  A \<^verbatim>\<open>ChildProcess\<close> as the manager sees it: its pid (undefined when the spawn
  failed) and the arguments of \<^verbatim>\<open>spawnWget\<close> that its event handlers close over.
\<close>

record childProcess =
  proc_pid :: "nat option"
  downloadId :: nat
  outputPath :: string
  proc_totalBytes :: int
  proc_bookInfo :: bookInfo

datatype signal = SIGSTOP | SIGCONT | SIGTERM

datatype effect =
    Spawn string "string list" childProcess
  | Kill childProcess signal

subsection \<open>The mirror metadata document\<close>

text \<open>
  The value \<^verbatim>\<open>fast-xml-parser\<close> returns for \<^verbatim>\<open>metalink.file\<close>: a \<^verbatim>\<open>url\<close> child
  is a plain string when it has no attributes, an object with \<^verbatim>\<open>#text\<close> and the
  attributes otherwise, and several children come as an array.
\<close>

datatype urlItem =
    UrlString string
  | UrlObject (text_of: string) (location_attr: "string option") (priority_attr: "string option")

definition itemUrl :: "urlItem \<Rightarrow> string" where
  "itemUrl u = (case u of UrlString str \<Rightarrow> str | UrlObject txt loc prio \<Rightarrow> txt)"

definition declaredPriority :: "urlItem \<Rightarrow> string option" where
  "declaredPriority u = (case u of UrlString str \<Rightarrow> None | UrlObject txt loc prio \<Rightarrow> prio)"

datatype urlField =
    OneString string
  | Several "urlItem list"
  | OneObject string "string option" "string option"

text \<open>An element of the array that \<^verbatim>\<open>resolveMeta4Url\<close> sorts.\<close>

record candidate =
  cand_url :: string
  cand_priority :: jsnum

record meta4File =
  m4_name :: string
  m4_size :: string
  m4_url :: urlField

record response =
  ok :: bool
  statusText :: string
  parsed :: meta4File

subsection \<open>Errors, state and environment\<close>

datatype error =
    BookNotFound string
  | NoDownloadUrl string
  | NotEnoughDiskSpace int int
  | FailedToFetchMeta4 string
  | AlreadyInProgress string
  | DownloadNotFound nat
  | TypeError
  | NoValuesToSet
  | Rejected string

datatype settingKey = DownloadFolder | KiwixServeUrl | CatalogSyncInterval

record diskSpace =
  total :: int
  used :: int
  available :: int
  percentUsed :: int

record state =
  downloads :: "download list"
  downloads_seq :: nat
  localZims :: "localZim list"
  localZims_seq :: nat
  settings :: "settingKey \<rightharpoonup> string option"
  activeProcesses :: "nat \<rightharpoonup> childProcess"
  effects :: "effect list"

text \<open>
  What the manager reads from outside: the catalog table, the clock, \<^verbatim>\<open>df\<close>,
  \<^verbatim>\<open>stat\<close>, HTTP, \<^verbatim>\<open>path.join\<close>, the home directory and the pid the operating
  system gives to the next spawned process.  \<^verbatim>\<open>df\<close> and \<^verbatim>\<open>fetch\<close> answer \<open>Inl\<close>
  with a message when the call rejects; \<^verbatim>\<open>stat\<close> answers \<open>None\<close> when it throws.
  \<open>engineSort\<close> is what \<^verbatim>\<open>Array.prototype.sort\<close> of the engine at hand makes of the
  candidates of a \<^verbatim>\<open>url\<close> array in which some priority is NaN: the comparator is
  then not consistent and ECMAScript leaves the order to the engine.
\<close>

record env =
  catalogBooks :: "catalogBook list"
  now :: nat
  df :: "string \<Rightarrow> string + diskSpace"
  stat :: "string \<Rightarrow> int option"
  fetch :: "string \<Rightarrow> string + response"
  pathJoin :: "string \<Rightarrow> string \<Rightarrow> string"
  homedir :: string
  spawnPid :: "nat option"
  engineSort :: "urlItem list \<Rightarrow> candidate list"

section \<open>Disk admission (\<^verbatim>\<open>services/disk.ts\<close>)\<close>

definition hasEnoughSpace :: "int \<Rightarrow> int \<Rightarrow> bool" where
  "hasEnoughSpace avail required =
     (let buffer = 1024 * 1024 * 1024 in avail \<ge> fl (required + buffer))"

text \<open>
  \<^verbatim>\<open>getDiskSpace\<close> creates the directory and parses the output of \<^verbatim>\<open>df -k\<close>; the
  parsed figures are the environment's answer, and a failing \<^verbatim>\<open>df\<close> rejects.
\<close>

definition getDiskSpace :: "env \<Rightarrow> string \<Rightarrow> error + diskSpace" where
  "getDiskSpace e path =
     (case df e path of
        Inl message \<Rightarrow> Inl (Rejected message)
      | Inr space \<Rightarrow> Inr space)"

section \<open>Settings (\<^verbatim>\<open>services/settings.ts\<close>)\<close>

definition DEFAULT_SETTINGS :: "env \<Rightarrow> settingKey \<Rightarrow> string" where
  "DEFAULT_SETTINGS e key =
     (case key of
        DownloadFolder \<Rightarrow> pathJoin e (homedir e) ''zim-files''
      | KiwixServeUrl \<Rightarrow> ''http://localhost:8080''
      | CatalogSyncInterval \<Rightarrow> ''0 0 * * *'')"

definition getSetting :: "env \<Rightarrow> settingKey \<Rightarrow> state \<Rightarrow> string" where
  "getSetting e key s =
     (case settings s key of
        Some (Some v) \<Rightarrow> v
      | _ \<Rightarrow> DEFAULT_SETTINGS e key)"

section \<open>Mirror resolver (\<^verbatim>\<open>resolveMeta4Url\<close>)\<close>

subsection \<open>\<^verbatim>\<open>parseInt(s, 10)\<close>\<close>

text \<open>
  \<^verbatim>\<open>parseInt\<close> skips leading white space, reads an optional sign and the longest
  run of decimal digits; with no digit the result is NaN, otherwise the number
  nearest to the value of the digits (as Node computes it, also for more than 20
  digits, where ECMAScript allows an approximation).
\<close>

definition isWhiteSpace :: "char \<Rightarrow> bool" where
  "isWhiteSpace c = (c \<in> set [CHR '' '', CHR 0x09, CHR 0x0A, CHR 0x0B, CHR 0x0C, CHR 0x0D])"

definition digitVal :: "char \<Rightarrow> int option" where
  "digitVal c = map_of
     [(CHR ''0'', 0), (CHR ''1'', 1), (CHR ''2'', 2), (CHR ''3'', 3), (CHR ''4'', 4),
      (CHR ''5'', 5), (CHR ''6'', 6), (CHR ''7'', 7), (CHR ''8'', 8), (CHR ''9'', 9)] c"

fun digitsVal :: "int \<Rightarrow> string \<Rightarrow> int" where
  "digitsVal acc [] = acc"
| "digitsVal acc (c # cs) =
     (case digitVal c of
        None \<Rightarrow> acc
      | Some d \<Rightarrow> digitsVal (10 * acc + d) cs)"

definition parseInt10 :: "string \<Rightarrow> jsnum" where
  "parseInt10 s =
     (let t = dropWhile isWhiteSpace s;
          sgn = (case t of c # _ \<Rightarrow> if c = CHR ''-'' then - 1 else 1 | [] \<Rightarrow> 1);
          r = (case t of c # cs \<Rightarrow> if c = CHR ''-'' \<or> c = CHR ''+'' then cs else t | [] \<Rightarrow> t)
      in case r of
           [] \<Rightarrow> NaN
         | c # _ \<Rightarrow> (if digitVal c = None then NaN else toNumber (sgn * digitsVal 0 r)))"

subsection \<open>Sorting the candidates\<close>

text \<open>
  The array branch maps every entry to a pair of its text and its numeric priority,
  sorts with the comparator \<^verbatim>\<open>a.priority - b.priority\<close> and takes the first.  When
  no priority is NaN the comparator is consistent and \<^verbatim>\<open>Array.prototype.sort\<close>,
  which is stable, has one possible result: \<open>sortUrls\<close>, the stable insertion sort,
  computes it.  Otherwise the result is the engine's.
\<close>

definition toCandidate :: "urlItem \<Rightarrow> candidate" where
  "toCandidate u =
     (case u of
        UrlString str \<Rightarrow> \<lparr>cand_url = str, cand_priority = Finite 99\<rparr>
      | UrlObject txt loc prio \<Rightarrow>
          \<lparr>cand_url = txt,
           cand_priority = parseInt10 (case prio of None \<Rightarrow> ''99'' | Some p \<Rightarrow> p)\<rparr>)"

definition comparePriority :: "candidate \<Rightarrow> candidate \<Rightarrow> jsnum" where
  "comparePriority a b = jsSub (cand_priority a) (cand_priority b)"

definition numericPriority :: "candidate \<Rightarrow> bool" where
  "numericPriority c = (cand_priority c \<noteq> NaN)"

fun insertUrl :: "candidate \<Rightarrow> candidate list \<Rightarrow> candidate list" where
  "insertUrl a [] = [a]"
| "insertUrl a (b # bs) =
     (if positive (comparePriority a b) then b # insertUrl a bs else a # b # bs)"

definition sortUrls :: "candidate list \<Rightarrow> candidate list" where
  "sortUrls xs = foldr insertUrl xs []"

definition selectUrl :: "env \<Rightarrow> urlField \<Rightarrow> error + string" where
  "selectUrl e u =
     (case u of
        OneString str \<Rightarrow> Inr str
      | Several items \<Rightarrow>
          (let urls = map toCandidate items;
               ordered = (if list_all numericPriority urls then sortUrls urls else engineSort e items)
           in case ordered of
                [] \<Rightarrow> Inl TypeError
              | c # _ \<Rightarrow> Inr (cand_url c))
      | OneObject txt loc prio \<Rightarrow> Inr txt)"

definition resolveMeta4Url :: "env \<Rightarrow> string \<Rightarrow> error + (string \<times> string)" where
  "resolveMeta4Url e meta4Url =
     (case fetch e meta4Url of
        Inl message \<Rightarrow> Inl (Rejected message)
      | Inr resp \<Rightarrow>
          if \<not> ok resp then Inl (FailedToFetchMeta4 (statusText resp))
          else
            let file = parsed resp;
                fileName = m4_name file
            in (case selectUrl e (m4_url file) of
                  Inl err \<Rightarrow> Inl err
                | Inr downloadUrl \<Rightarrow> Inr (downloadUrl, fileName)))"

section \<open>The download manager\<close>

subsection \<open>Queries and updates on the tables\<close>

definition selectWhere :: "('r \<Rightarrow> bool) \<Rightarrow> 'r list \<Rightarrow> 'r list" where
  "selectWhere P rows = filter P rows"

definition updateWhere :: "('r \<Rightarrow> bool) \<Rightarrow> ('r \<Rightarrow> 'r) \<Rightarrow> 'r list \<Rightarrow> 'r list" where
  "updateWhere P f rows = map (\<lambda>r. if P r then f r else r) rows"

definition deleteWhere :: "('r \<Rightarrow> bool) \<Rightarrow> 'r list \<Rightarrow> 'r list" where
  "deleteWhere P rows = filter (\<lambda>r. \<not> P r) rows"

text \<open>An \<^verbatim>\<open>autoIncrement\<close> key: one more than the largest key ever used.\<close>

definition nextKey :: "nat \<Rightarrow> nat list \<Rightarrow> nat" where
  "nextKey seq keys = Suc (fold max keys seq)"

definition truthy :: "string option \<Rightarrow> bool" where
  "truthy v = (case v of None \<Rightarrow> False | Some str \<Rightarrow> str \<noteq> [])"

definition getBookById :: "env \<Rightarrow> string \<Rightarrow> catalogBook option" where
  "getBookById e i =
     (case take 1 (selectWhere (\<lambda>b. book_id b = i) (catalogBooks e)) of
        [] \<Rightarrow> None
      | b # _ \<Rightarrow> Some b)"

definition getDownloadById :: "nat \<Rightarrow> state \<Rightarrow> download option" where
  "getDownloadById i s =
     (case take 1 (selectWhere (\<lambda>d. id_col d = i) (downloads s)) of
        [] \<Rightarrow> None
      | d # _ \<Rightarrow> Some d)"

definition getDownloadByBookId :: "string \<Rightarrow> state \<Rightarrow> download option" where
  "getDownloadByBookId b s =
     (case take 1 (selectWhere (\<lambda>d. bookId d = Some b) (downloads s)) of
        [] \<Rightarrow> None
      | d # _ \<Rightarrow> Some d)"

subsection \<open>\<^verbatim>\<open>spawnWget\<close>\<close>

text \<open>
  A call that throws answers \<open>Inl\<close> with the error and the state it leaves behind; a
  call that returns answers \<open>Inr\<close> with its result and the new state.

  \<^verbatim>\<open>spawnWget\<close> spawns \<^verbatim>\<open>wget -c\<close>, registers the handle under the download id and
  stores the pid in the row.  When the spawn failed the pid is undefined, the update
  has no value to set and the query builder throws, before the handlers for the
  process's events are attached.
\<close>

definition spawnWget ::
  "env \<Rightarrow> nat \<Rightarrow> string \<Rightarrow> string \<Rightarrow> int \<Rightarrow> bookInfo \<Rightarrow> state \<Rightarrow> (error \<times> state) + state" where
  "spawnWget e dlId url outPath totBytes info s =
     (let wget = \<lparr>proc_pid = spawnPid e, downloadId = dlId, outputPath = outPath,
                  proc_totalBytes = totBytes, proc_bookInfo = info\<rparr>;
          s1 = s\<lparr>effects := effects s @
                   [Spawn ''wget'' [''-c'', ''--progress=dot:mega'', ''-O'', outPath, url] wget],
                 activeProcesses := (activeProcesses s)(dlId \<mapsto> wget)\<rparr>
      in case proc_pid wget of
           None \<Rightarrow> Inl (NoValuesToSet, s1)
         | Some p \<Rightarrow>
             Inr (s1\<lparr>downloads :=
                       updateWhere (\<lambda>d. id_col d = dlId) (\<lambda>d. d\<lparr>pid := Some p\<rparr>) (downloads s1)\<rparr>))"

subsection \<open>\<^verbatim>\<open>startDownload\<close>\<close>

definition startDownload ::
  "env \<Rightarrow> string \<Rightarrow> state \<Rightarrow> (error \<times> state) + (download \<times> state)" where
  "startDownload e bId s =
     (case getBookById e bId of
        None \<Rightarrow> Inl (BookNotFound bId, s)
      | Some book \<Rightarrow>
          if \<not> truthy (book_url book) then Inl (NoDownloadUrl bId, s)
          else
            let meta4Url = (case book_url book of None \<Rightarrow> [] | Some u \<Rightarrow> u);
                downloadFolder = getSetting e DownloadFolder s;
                requiredBytes = fl ((case book_size book of None \<Rightarrow> 0 | Some k \<Rightarrow> k) * 1024)
            in (case getDiskSpace e downloadFolder of
                  Inl err \<Rightarrow> Inl (err, s)
                | Inr space \<Rightarrow>
                    if \<not> hasEnoughSpace (available space) requiredBytes
                    then Inl (NotEnoughDiskSpace requiredBytes (available space), s)
                    else
                      (case resolveMeta4Url e meta4Url of
                         Inl err \<Rightarrow> Inl (err, s)
                       | Inr (downloadUrl, fileName) \<Rightarrow>
                           let fPath = pathJoin e downloadFolder fileName;
                               info = \<lparr>bi_bookId = book_id book, bi_catalogDate = book_date book,
                                       bi_fileName = fileName\<rparr>
                           in (case take 1 (selectWhere (\<lambda>d. bookId d = Some bId) (downloads s)) of
                                 ex # _ \<Rightarrow>
                                   if status ex = Downloading then Inl (AlreadyInProgress bId, s)
                                   else
                                     let s1 = s\<lparr>downloads :=
                                                updateWhere (\<lambda>d. id_col d = id_col ex)
                                                  (\<lambda>d. d\<lparr>status := Downloading,
                                                          startedAt := Some (now e),
                                                          error := None\<rparr>)
                                                  (downloads s)\<rparr>
                                     in (case selectWhere (\<lambda>d. id_col d = id_col ex) (downloads s1) of
                                           [] \<Rightarrow> Inl (TypeError, s1)
                                         | downloadRecord # _ \<Rightarrow>
                                             (case spawnWget e (id_col downloadRecord) downloadUrl fPath
                                                     requiredBytes info s1 of
                                                Inl failure \<Rightarrow> Inl failure
                                              | Inr s2 \<Rightarrow> Inr (downloadRecord, s2)))
                               | [] \<Rightarrow>
                                   let k = nextKey (downloads_seq s) (map id_col (downloads s));
                                       downloadRecord =
                                         \<lparr>id_col = k, bookId = Some bId, status = Downloading,
                                          filePath = Some fPath, bytesDownloaded = Some 0,
                                          totalBytes = Some requiredBytes, pid = None,
                                          startedAt = Some (now e), completedAt = None,
                                          error = None\<rparr>;
                                       s1 = s\<lparr>downloads := downloads s @ [downloadRecord],
                                              downloads_seq := k\<rparr>
                                   in (case spawnWget e (id_col downloadRecord) downloadUrl fPath
                                             requiredBytes info s1 of
                                         Inl failure \<Rightarrow> Inl failure
                                       | Inr s2 \<Rightarrow> Inr (downloadRecord, s2))))))"

subsection \<open>Process events handled by \<^verbatim>\<open>spawnWget\<close>\<close>

text \<open>The text JavaScript interpolates for an exit code (\<^verbatim>\<open>null\<close> after a signal).\<close>

fun decimal :: "nat \<Rightarrow> string" where
  "decimal n =
     (if n < 10 then [''0123456789'' ! n]
      else decimal (n div 10) @ [''0123456789'' ! (n mod 10)])"

definition showCode :: "int option \<Rightarrow> string" where
  "showCode code =
     (case code of
        None \<Rightarrow> ''null''
      | Some c \<Rightarrow> if c < 0 then ''-'' @ decimal (nat (- c)) else decimal (nat c))"

definition onClose :: "env \<Rightarrow> childProcess \<Rightarrow> int option \<Rightarrow> state \<Rightarrow> state" where
  "onClose e wget code s =
     (let s0 = s\<lparr>activeProcesses := (activeProcesses s)(downloadId wget := None)\<rparr>
      in if code = Some 0 then
           let stats = stat e (outputPath wget);
               s1 = s0\<lparr>downloads :=
                      updateWhere (\<lambda>d. id_col d = downloadId wget)
                        (\<lambda>d. d\<lparr>status := Completed,
                                bytesDownloaded :=
                                  Some (case stats of None \<Rightarrow> proc_totalBytes wget | Some sz \<Rightarrow> sz),
                                completedAt := Some (now e),
                                pid := None\<rparr>)
                        (downloads s0)\<rparr>
           in (case take 1 (selectWhere (\<lambda>z. lz_filePath z = outputPath wget) (localZims s1)) of
                 ex # _ \<Rightarrow>
                   s1\<lparr>localZims :=
                        updateWhere (\<lambda>z. lz_id z = lz_id ex)
                          (\<lambda>z. z\<lparr>lz_fileSize := stats,
                                  lz_bookId := Some (bi_bookId (proc_bookInfo wget)),
                                  lz_catalogDate := bi_catalogDate (proc_bookInfo wget),
                                  lz_hasUpdate := Some False,
                                  lz_lastChecked := Some (now e)\<rparr>)
                          (localZims s1)\<rparr>
               | [] \<Rightarrow>
                   let k = nextKey (localZims_seq s1) (map lz_id (localZims s1))
                   in s1\<lparr>localZims := localZims s1 @
                           [\<lparr>lz_id = k, lz_filePath = outputPath wget,
                             lz_fileName = bi_fileName (proc_bookInfo wget),
                             lz_fileSize = stats,
                             lz_bookId = Some (bi_bookId (proc_bookInfo wget)),
                             lz_catalogDate = bi_catalogDate (proc_bookInfo wget),
                             lz_hasUpdate = Some False,
                             lz_discoveredAt = Some (now e),
                             lz_lastChecked = Some (now e)\<rparr>],
                         localZims_seq := k\<rparr>)
         else
           if map_option status (getDownloadById (downloadId wget) s0) \<noteq> Some Paused then
             s0\<lparr>downloads :=
                  updateWhere (\<lambda>d. id_col d = downloadId wget)
                    (\<lambda>d. d\<lparr>status := Failed,
                            error := Some (''wget exited with code '' @ showCode code),
                            pid := None\<rparr>)
                    (downloads s0)\<rparr>
           else s0)"

definition onError :: "childProcess \<Rightarrow> string \<Rightarrow> state \<Rightarrow> state" where
  "onError wget message s =
     (let s0 = s\<lparr>activeProcesses := (activeProcesses s)(downloadId wget := None)\<rparr>
      in s0\<lparr>downloads :=
             updateWhere (\<lambda>d. id_col d = downloadId wget)
               (\<lambda>d. d\<lparr>status := Failed, error := Some message, pid := None\<rparr>)
               (downloads s0)\<rparr>)"

text \<open>
  \<open>onClose\<close> and \<open>onError\<close> are the handlers.  \<^verbatim>\<open>spawnWget\<close> attaches them after the
  pid write, so they listen exactly on the processes that have a pid; an event of a
  process whose spawn failed finds no handler of the manager and changes no row.
  \<open>emitClose\<close> and \<open>emitError\<close> are the steps the environment can take.
\<close>

definition listening :: "childProcess \<Rightarrow> bool" where
  "listening wget = (proc_pid wget \<noteq> None)"

definition emitClose :: "env \<Rightarrow> childProcess \<Rightarrow> int option \<Rightarrow> state \<Rightarrow> state" where
  "emitClose e wget code s = (if listening wget then onClose e wget code s else s)"

definition emitError :: "childProcess \<Rightarrow> string \<Rightarrow> state \<Rightarrow> state" where
  "emitError wget message s = (if listening wget then onError wget message s else s)"

subsection \<open>\<^verbatim>\<open>pauseDownload\<close>, \<^verbatim>\<open>resumeDownload\<close>, \<^verbatim>\<open>cancelDownload\<close>, \<^verbatim>\<open>deleteDownload\<close>\<close>

text \<open>\<^verbatim>\<open>process && process.pid\<close>: a registered handle whose pid is defined and not 0.\<close>

definition liveHandle :: "nat \<Rightarrow> state \<Rightarrow> childProcess option" where
  "liveHandle dlId s =
     (case activeProcesses s dlId of
        None \<Rightarrow> None
      | Some p \<Rightarrow>
          (case proc_pid p of
             None \<Rightarrow> None
           | Some n \<Rightarrow> if n = 0 then None else Some p))"

definition pauseDownload :: "nat \<Rightarrow> state \<Rightarrow> state" where
  "pauseDownload dlId s =
     (case liveHandle dlId s of
        Some p \<Rightarrow>
          s\<lparr>effects := effects s @ [Kill p SIGSTOP],
            downloads :=
              updateWhere (\<lambda>d. id_col d = dlId) (\<lambda>d. d\<lparr>status := Paused\<rparr>) (downloads s)\<rparr>
      | None \<Rightarrow> s)"

definition resumeDownload :: "env \<Rightarrow> nat \<Rightarrow> state \<Rightarrow> (error \<times> state) + state" where
  "resumeDownload e dlId s =
     (case getDownloadById dlId s of
        None \<Rightarrow> Inl (DownloadNotFound dlId, s)
      | Some d \<Rightarrow>
          (case liveHandle dlId s of
             Some p \<Rightarrow>
               Inr (s\<lparr>effects := effects s @ [Kill p SIGCONT],
                      downloads :=
                        updateWhere (\<lambda>d. id_col d = dlId) (\<lambda>d. d\<lparr>status := Downloading\<rparr>)
                          (downloads s)\<rparr>)
           | None \<Rightarrow>
               if truthy (bookId d) then
                 (case startDownload e (case bookId d of None \<Rightarrow> [] | Some b \<Rightarrow> b) s of
                    Inl err \<Rightarrow> Inl err
                  | Inr (r, s') \<Rightarrow> Inr s')
               else Inr s))"

definition cancelDownload :: "nat \<Rightarrow> state \<Rightarrow> state" where
  "cancelDownload dlId s =
     (let s0 = (case activeProcesses s dlId of
                  Some p \<Rightarrow>
                    s\<lparr>effects := effects s @ [Kill p SIGTERM],
                      activeProcesses := (activeProcesses s)(dlId := None)\<rparr>
                | None \<Rightarrow> s)
      in s0\<lparr>downloads :=
             updateWhere (\<lambda>d. id_col d = dlId)
               (\<lambda>d. d\<lparr>status := Failed, error := Some ''Cancelled by user'', pid := None\<rparr>)
               (downloads s0)\<rparr>)"

definition deleteDownload :: "nat \<Rightarrow> state \<Rightarrow> state" where
  "deleteDownload dlId s =
     (let s0 = cancelDownload dlId s
      in s0\<lparr>downloads := deleteWhere (\<lambda>d. id_col d = dlId) (downloads s0)\<rparr>)"

subsection \<open>\<^verbatim>\<open>getDownloadProgress\<close>\<close>

record downloadProgress =
  dp_id :: nat
  dp_bookId :: string
  dp_status :: status
  dp_bytesDownloaded :: int
  dp_totalBytes :: int
  percentage :: real
  dp_filePath :: string
  dp_error :: "string option"

definition getDownloadProgress :: "env \<Rightarrow> nat \<Rightarrow> state \<Rightarrow> downloadProgress option" where
  "getDownloadProgress e dlId s =
     (case getDownloadById dlId s of
        None \<Rightarrow> None
      | Some d \<Rightarrow>
          let stored = (case bytesDownloaded d of None \<Rightarrow> 0 | Some b \<Rightarrow> b);
              bytes =
                (if status d = Downloading \<and> truthy (filePath d) then
                   (case stat e (case filePath d of None \<Rightarrow> [] | Some f \<Rightarrow> f) of
                      Some sz \<Rightarrow> sz
                    | None \<Rightarrow> stored)
                 else stored);
              tot = (case totalBytes d of None \<Rightarrow> 0 | Some t \<Rightarrow> t);
              pct = (if tot > 0 then (real_of_int bytes / real_of_int tot) * 100 else 0)
          in Some \<lparr>dp_id = id_col d,
                   dp_bookId = (case bookId d of None \<Rightarrow> [] | Some b \<Rightarrow> b),
                   dp_status = status d,
                   dp_bytesDownloaded = bytes,
                   dp_totalBytes = tot,
                   percentage = pct,
                   dp_filePath = (case filePath d of None \<Rightarrow> [] | Some f \<Rightarrow> f),
                   dp_error = error d\<rparr>)"

section \<open>Concrete inputs\<close>

text \<open>
  A metadata document with three mirrors of priorities 3, 1 and 2, a catalog with a
  book of 976563 KB and a book of unknown size whose metadata documents declare the
  same file name, and the states the manager goes through when the first book is
  started and paused.
\<close>

definition plainMirror :: urlItem where
  "plainMirror = UrlString ''http://p.example/wiki.zim''"

definition bareMirror :: urlItem where
  "bareMirror = UrlObject ''http://q.example/wiki.zim'' (Some ''us'') None"

definition farMirror :: urlItem where
  "farMirror = UrlObject ''http://a.example/wiki.zim'' (Some ''de'') (Some ''100'')"

definition exampleMirrors :: "urlItem list" where
  "exampleMirrors =
     [UrlObject ''http://m3.example/wiki.zim'' (Some ''de'') (Some ''3''),
      UrlObject ''http://m1.example/wiki.zim'' (Some ''us'') (Some ''1''),
      UrlObject ''http://m2.example/wiki.zim'' (Some ''fr'') (Some ''2'')]"

text \<open>
  The example engine is Node: for an array shorter than 64 elements V8 takes the
  run at the start of the array (reversed when it is strictly descending) and
  places every later element by binary insertion, treating a comparator result of
  NaN as 0.
\<close>

fun extendRun :: "bool \<Rightarrow> candidate \<Rightarrow> candidate list \<Rightarrow> candidate list \<times> candidate list" where
  "extendRun desc prev [] = ([], [])"
| "extendRun desc prev (c # cs) =
     (if negative (comparePriority c prev) = desc
      then (let (run, rest) = extendRun desc c cs in (c # run, rest))
      else ([], c # cs))"

definition countAndMakeRun :: "candidate list \<Rightarrow> candidate list \<times> candidate list" where
  "countAndMakeRun xs =
     (case xs of
        [] \<Rightarrow> ([], [])
      | x0 # ys \<Rightarrow>
          (case ys of
             [] \<Rightarrow> ([x0], [])
           | x1 # zs \<Rightarrow>
               let desc = negative (comparePriority x1 x0);
                   (run, rest) = extendRun desc x1 zs
               in (if desc then rev (x0 # x1 # run) else x0 # x1 # run, rest)))"

function binarySearch :: "candidate \<Rightarrow> candidate list \<Rightarrow> nat \<Rightarrow> nat \<Rightarrow> nat" where
  "binarySearch pivot xs left right =
     (if left < right then
        let mid = left + (right - left) div 2
        in if negative (comparePriority pivot (xs ! mid))
           then binarySearch pivot xs left mid
           else binarySearch pivot xs (mid + 1) right
      else left)"
  by pat_completeness auto
termination
  by (relation "measure (\<lambda>(pivot, xs, left, right). right - left)") auto

definition insertPivot :: "candidate list \<Rightarrow> candidate \<Rightarrow> candidate list" where
  "insertPivot placed pivot =
     (let k = binarySearch pivot placed 0 (length placed)
      in take k placed @ [pivot] @ drop k placed)"

definition shortArraySort :: "candidate list \<Rightarrow> candidate list" where
  "shortArraySort xs = (let (run, rest) = countAndMakeRun xs in foldl insertPivot run rest)"

definition exampleFile :: meta4File where
  "exampleFile =
     \<lparr>m4_name = ''wiki.zim'', m4_size = ''1000000512'', m4_url = Several exampleMirrors\<rparr>"

definition bookA :: catalogBook where
  "bookA = \<lparr>book_id = ''a'', book_date = Some ''2024-01'', book_size = Some 976563,
            book_url = Some ''http://cat.example/wiki.meta4''\<rparr>"

definition bookB :: catalogBook where
  "bookB = \<lparr>book_id = ''b'', book_date = None, book_size = None,
            book_url = Some ''http://cat.example/wiki_b.meta4''\<rparr>"

definition exampleSpace :: "int \<Rightarrow> diskSpace" where
  "exampleSpace n = \<lparr>total = 8000000000, used = 8000000000 - n, available = n, percentUsed = 50\<rparr>"

definition exampleEnv :: "int \<Rightarrow> env" where
  "exampleEnv n =
     \<lparr>catalogBooks = [bookA, bookB],
      now = 7,
      df = (\<lambda>p. Inr (exampleSpace n)),
      stat = (\<lambda>p. None),
      fetch = (\<lambda>u. Inr \<lparr>ok = True, statusText = ''OK'', parsed = exampleFile\<rparr>),
      pathJoin = (\<lambda>a b. a @ ''/'' @ b),
      homedir = ''/home/u'',
      spawnPid = Some 4242,
      engineSort = (\<lambda>items. shortArraySort (map toCandidate items))\<rparr>"

definition emptyState :: state where
  "emptyState =
     \<lparr>downloads = [], downloads_seq = 0, localZims = [], localZims_seq = 0,
      settings = Map.empty, activeProcesses = Map.empty, effects = []\<rparr>"

definition exampleProc :: "nat \<Rightarrow> string \<Rightarrow> int \<Rightarrow> childProcess" where
  "exampleProc i b n =
     \<lparr>proc_pid = Some 4242, downloadId = i, outputPath = ''/home/u/zim-files/wiki.zim'',
      proc_totalBytes = n,
      proc_bookInfo = \<lparr>bi_bookId = b, bi_catalogDate = (if b = ''a'' then Some ''2024-01'' else None),
                        bi_fileName = ''wiki.zim''\<rparr>\<rparr>"

definition exampleSpawn :: "childProcess \<Rightarrow> effect" where
  "exampleSpawn p =
     Spawn ''wget''
       [''-c'', ''--progress=dot:mega'', ''-O'', ''/home/u/zim-files/wiki.zim'',
        ''http://m1.example/wiki.zim''] p"

definition rowA :: "status \<Rightarrow> download" where
  "rowA st =
     \<lparr>id_col = 1, bookId = Some ''a'', status = st,
      filePath = Some ''/home/u/zim-files/wiki.zim'', bytesDownloaded = Some 0,
      totalBytes = Some 1000000512, pid = Some 4242, startedAt = Some 7,
      completedAt = None, error = None\<rparr>"

definition runningState :: state where
  "runningState =
     \<lparr>downloads = [rowA Downloading], downloads_seq = 1, localZims = [], localZims_seq = 0,
      settings = Map.empty, activeProcesses = [1 \<mapsto> exampleProc 1 ''a'' 1000000512],
      effects = [exampleSpawn (exampleProc 1 ''a'' 1000000512)]\<rparr>"

definition pausedState :: state where
  "pausedState =
     \<lparr>downloads = [rowA Paused], downloads_seq = 1, localZims = [], localZims_seq = 0,
      settings = Map.empty, activeProcesses = [1 \<mapsto> exampleProc 1 ''a'' 1000000512],
      effects = [exampleSpawn (exampleProc 1 ''a'' 1000000512),
                 Kill (exampleProc 1 ''a'' 1000000512) SIGSTOP]\<rparr>"

text \<open>
  A store left by an earlier run, when the catalog still gave book \<open>b\<close> a size of
  2000 KB: its download failed with exit code 8, no process is registered, and the
  row holds the total recorded when it was created.
\<close>

definition earlierEnv :: env where
  "earlierEnv =
     (exampleEnv 3000000000)\<lparr>catalogBooks := [bookA, bookB\<lparr>book_size := Some 2000\<rparr>], now := 3\<rparr>"

definition staleRow :: download where
  "staleRow =
     \<lparr>id_col = 1, bookId = Some ''b'', status = Failed,
      filePath = Some ''/home/u/zim-files/wiki.zim'', bytesDownloaded = Some 0,
      totalBytes = Some 2048000, pid = None, startedAt = Some 3,
      completedAt = None, error = Some ''wget exited with code 8''\<rparr>"

definition staleState :: state where
  "staleState =
     \<lparr>downloads = [staleRow], downloads_seq = 1, localZims = [], localZims_seq = 0,
      settings = Map.empty, activeProcesses = Map.empty,
      effects = [exampleSpawn (exampleProc 1 ''b'' 2048000)]\<rparr>"

text \<open>
  A machine without \<^verbatim>\<open>wget\<close>: the spawn yields a process that has no pid and will
  emit an error event.  \<open>failedSpawnState\<close> is the store after book \<open>a\<close> was started
  there.
\<close>

definition noWgetEnv :: env where
  "noWgetEnv = (exampleEnv 3000000000)\<lparr>spawnPid := None\<rparr>"

definition failedProc :: childProcess where
  "failedProc = (exampleProc 1 ''a'' 1000000512)\<lparr>proc_pid := None\<rparr>"

definition failedSpawnState :: state where
  "failedSpawnState =
     \<lparr>downloads = [(rowA Downloading)\<lparr>pid := None\<rparr>], downloads_seq = 1, localZims = [],
      localZims_seq = 0, settings = Map.empty, activeProcesses = [1 \<mapsto> failedProc],
      effects = [exampleSpawn failedProc]\<rparr>"

section \<open>Basic facts about numbers, the tables and \<^verbatim>\<open>startDownload\<close>\<close>

lemmas mirror_defs = plainMirror_def bareMirror_def farMirror_def exampleMirrors_def

lemmas example_defs =
  exampleMirrors_def exampleFile_def bookA_def bookB_def exampleSpace_def exampleEnv_def emptyState_def
  exampleProc_def exampleSpawn_def rowA_def runningState_def pausedState_def

lemmas num_defs = toNumber_def fl_def ulp_def bitlen.simps

lemmas engine_defs = shortArraySort_def countAndMakeRun_def insertPivot_def

subsection \<open>Rounding\<close>

lemma bitlen_le: "n < 2 ^ k \<Longrightarrow> bitlen n \<le> k"
proof (induction k arbitrary: n)
  case 0
  then show ?case by (simp add: bitlen.simps)
next
  case (Suc k)
  show ?case
  proof (cases "n = 0")
    case True
    then show ?thesis by (simp add: bitlen.simps)
  next
    case False
    from Suc.prems have "n div 2 < 2 ^ k" by simp
    from Suc.IH [OF this] False show ?thesis by (subst bitlen.simps) simp
  qed
qed

lemma bitlen_ge: "0 < n \<Longrightarrow> 2 ^ (bitlen n - 1) \<le> n"
proof (induction n rule: bitlen.induct)
  case (1 n)
  show ?case
  proof (cases "n div 2 = 0")
    case True
    with "1.prems" have "bitlen n = Suc 0" by (subst bitlen.simps) (simp add: bitlen.simps)
    with "1.prems" show ?thesis by simp
  next
    case False
    then have pos: "0 < n div 2" by simp
    with "1.prems" "1.IH" have ih: "2 ^ (bitlen (n div 2) - 1) \<le> n div 2"
      by simp
    from pos have bp: "0 < bitlen (n div 2)" by (subst bitlen.simps) (simp)
    have "bitlen n = Suc (bitlen (n div 2))" using "1.prems"
      by (subst bitlen.simps) (simp)
    then have "(2::nat) ^ (bitlen n - 1) = 2 * 2 ^ (bitlen (n div 2) - 1)"
      using bp by (cases "bitlen (n div 2)") (simp_all)
    also have "\<dots> \<le> 2 * (n div 2)" using ih by simp
    also have "\<dots> \<le> n" by simp
    finally show ?thesis .
  qed
qed

lemma ulp_pos: "0 < ulp x"
  by (simp add: ulp_def)

lemma ulp_small: "\<bar>x\<bar> < 2 ^ 53 \<Longrightarrow> ulp x = 1"
proof -
  assume "\<bar>x\<bar> < 2 ^ 53"
  then have "nat \<bar>x\<bar> < 2 ^ 53" by (simp add: nat_less_iff)
  from bitlen_le [OF this] show ?thesis by (simp add: ulp_def)
qed

lemma fl_exact: "\<bar>x\<bar> \<le> 9007199254740992 \<Longrightarrow> fl x = x"
proof (cases "\<bar>x\<bar> < 2 ^ 53")
  case True
  then show ?thesis by (simp add: fl_def ulp_small)
next
  case False
  assume "\<bar>x\<bar> \<le> 9007199254740992"
  with False have "x = 9007199254740992 \<or> x = - 9007199254740992" by simp arith
  then show ?thesis
  proof
    assume "x = 9007199254740992"
    then show ?thesis by (simp add: fl_def ulp_def bitlen.simps)
  next
    assume "x = - 9007199254740992"
    then show ?thesis by (simp add: fl_def ulp_def bitlen.simps)
  qed
qed

lemma ulp_le: "0 < x \<Longrightarrow> ulp x \<le> x"
proof -
  assume x: "0 < x"
  then have n: "0 < nat \<bar>x\<bar>" by simp
  have "(2::int) ^ (bitlen (nat \<bar>x\<bar>) - 53) \<le> 2 ^ (bitlen (nat \<bar>x\<bar>) - 1)"
    by (rule power_increasing) simp_all
  also have "\<dots> = int (2 ^ (bitlen (nat \<bar>x\<bar>) - 1))" by simp
  also have "\<dots> \<le> int (nat \<bar>x\<bar>)" using bitlen_ge [OF n] by (simp only: of_nat_le_iff)
  also have "\<dots> = x" using x by simp
  finally show ?thesis by (simp add: ulp_def)
qed

lemma fl_cases: "fl x = (x div ulp x) * ulp x \<or> fl x = (x div ulp x + 1) * ulp x"
  by (simp add: fl_def Let_def)

lemma fl_pos: "0 < x \<Longrightarrow> 0 < fl x"
proof -
  assume x: "0 < x"
  have u: "0 < ulp x" by (rule ulp_pos)
  have "0 < x div ulp x" using ulp_le [OF x] u
    by (simp only: pos_imp_zdiv_pos_iff)
  then have "0 < (x div ulp x) * ulp x" "0 < (x div ulp x + 1) * ulp x" using u
    by (simp_all)
  with fl_cases [of x] show ?thesis by auto
qed

lemma fl_nonpos: "x \<le> 0 \<Longrightarrow> fl x \<le> 0"
proof (cases "x = 0")
  case True
  then show ?thesis using ulp_pos [of 0] by (simp add: fl_def Let_def)
next
  case False
  assume "x \<le> 0"
  with False have x: "x < 0" by simp
  have u: "0 < ulp x" by (rule ulp_pos)
  have "x div ulp x < 0" using x u by (rule div_neg_pos_less0)
  then have "(x div ulp x) * ulp x \<le> 0" "(x div ulp x + 1) * ulp x \<le> 0" using u
    by (simp_all add: mult_le_0_iff)
  with fl_cases [of x] show ?thesis by auto
qed


lemma positive_toNumber: "positive (toNumber d) \<longleftrightarrow> 0 < d"
proof (cases "0 < d")
  case True
  from fl_pos [OF this] True show ?thesis
    by (simp add: toNumber_def positive_def Let_def)
next
  case False
  then have "fl d \<le> 0" by (simp add: fl_nonpos)
  with False show ?thesis
    by (simp add: toNumber_def positive_def Let_def)
qed

lemma toNumber_exact: "\<bar>x\<bar> \<le> 9007199254740992 \<Longrightarrow> toNumber x = Finite x"
  by (simp add: toNumber_def fl_exact) arith

text \<open>Evaluation on concrete inputs uses the two facts for numbers up to \<open>2^53\<close>.\<close>

lemmas resolver_defs =
  resolveMeta4Url_def selectUrl_def sortUrls_def toCandidate_def parseInt10_def digitVal_def
  isWhiteSpace_def comparePriority_def positive_def negative_def numericPriority_def
  toNumber_exact Let_def

lemmas start_defs =
  startDownload_def getBookById_def selectWhere_def updateWhere_def truthy_def getSetting_def
  DEFAULT_SETTINGS_def getDiskSpace_def hasEnoughSpace_def spawnWget_def nextKey_def fl_exact Let_def

subsection \<open>Tables\<close>

lemma take1_filter: "take (Suc 0) (filter P xs) = (case find P xs of None \<Rightarrow> [] | Some x \<Rightarrow> [x])"
  by (induction xs) auto

lemma getDownloadById_find: "getDownloadById i s = find (\<lambda>d. id_col d = i) (downloads s)"
  by (simp add: getDownloadById_def selectWhere_def take1_filter split: option.splits)

lemma getDownloadByBookId_find: "getDownloadByBookId b s = find (\<lambda>d. bookId d = Some b) (downloads s)"
  by (simp add: getDownloadByBookId_def selectWhere_def take1_filter split: option.splits)

lemma find_updateWhere_id:
  assumes "\<And>d. id_col (f d) = id_col d"
  shows "find (\<lambda>d. id_col d = i) (updateWhere (\<lambda>d. id_col d = j) f rows)
         = (if i = j then map_option f (find (\<lambda>d. id_col d = i) rows) else find (\<lambda>d. id_col d = i) rows)"
  using assms by (induction rows) (auto simp: updateWhere_def)

lemma length_updateWhere [simp]: "length (updateWhere P f rows) = length rows"
  by (simp add: updateWhere_def)

lemma map_updateWhere_inv:
  assumes "\<And>d. g (f d) = g d"
  shows "map g (updateWhere P f rows) = map g rows"
  using assms by (induction rows) (auto simp: updateWhere_def)

lemma case_filter_find:
  "(case filter P xs of [] \<Rightarrow> a | x # ys \<Rightarrow> g x) = (case find P xs of None \<Rightarrow> a | Some x \<Rightarrow> g x)"
  by (induction xs) auto

lemma find_Some_id:
  "find P rows = Some ex \<Longrightarrow> \<exists>d0. find (\<lambda>d. id_col d = id_col ex) rows = Some d0 \<and> id_col d0 = id_col ex"
  by (induction rows) (auto split: if_splits)


subsection \<open>\<^verbatim>\<open>spawnWget\<close> and \<^verbatim>\<open>startDownload\<close>\<close>

lemma spawnWget_Inr:
  "spawnWget e i u out t info s = Inr s2 \<Longrightarrow>
     \<exists>p. spawnPid e = Some p \<and>
       s2 = s\<lparr>effects := effects s @
                 [Spawn ''wget'' [''-c'', ''--progress=dot:mega'', ''-O'', out, u]
                    \<lparr>proc_pid = Some p, downloadId = i, outputPath = out, proc_totalBytes = t,
                     proc_bookInfo = info\<rparr>],
               activeProcesses := (activeProcesses s)(i \<mapsto>
                    \<lparr>proc_pid = Some p, downloadId = i, outputPath = out, proc_totalBytes = t,
                     proc_bookInfo = info\<rparr>),
               downloads := updateWhere (\<lambda>d. id_col d = i) (\<lambda>d. d\<lparr>pid := Some p\<rparr>) (downloads s)\<rparr>"
  by (auto simp: spawnWget_def Let_def split: option.splits)

lemma spawnWget_Inl:
  "spawnWget e i u out t info s = Inl (err, s1) \<Longrightarrow>
     err = NoValuesToSet \<and> spawnPid e = None \<and> downloads s1 = downloads s"
  by (auto simp: spawnWget_def Let_def split: option.splits)

lemma spawnWget_ok:
  "spawnPid e = Some p \<Longrightarrow>
   spawnWget e i u out t info s =
     Inr (s\<lparr>effects := effects s @
                 [Spawn ''wget'' [''-c'', ''--progress=dot:mega'', ''-O'', out, u]
                    \<lparr>proc_pid = Some p, downloadId = i, outputPath = out, proc_totalBytes = t,
                     proc_bookInfo = info\<rparr>],
               activeProcesses := (activeProcesses s)(i \<mapsto>
                    \<lparr>proc_pid = Some p, downloadId = i, outputPath = out, proc_totalBytes = t,
                     proc_bookInfo = info\<rparr>),
               downloads := updateWhere (\<lambda>d. id_col d = i) (\<lambda>d. d\<lparr>pid := Some p\<rparr>) (downloads s)\<rparr>)"
  by (simp add: spawnWget_def Let_def)

lemma spawnWget_map:
  assumes "spawnWget e i u out t info s = Inr s2" and "\<And>d p. g (d\<lparr>pid := p\<rparr>) = g d"
  shows "map g (downloads s2) = map g (downloads s)"
  using spawnWget_Inr [OF assms(1)] assms(2) by (auto simp: map_updateWhere_inv)

lemma spawnWget_get:
  assumes "spawnWget e j u out t info s = Inr s2"
  shows "getDownloadById i s2 =
     (if i = j then map_option (\<lambda>d. d\<lparr>pid := spawnPid e\<rparr>) (getDownloadById i s)
      else getDownloadById i s)"
  using spawnWget_Inr [OF assms] by (auto simp: getDownloadById_find find_updateWhere_id)

lemma after_spawn_Inr:
  "(case x of Inl failure \<Rightarrow> Inl failure | Inr s2 \<Rightarrow> Inr (d, s2)) = Inr (r, s') \<longleftrightarrow> x = Inr s' \<and> r = d"
  by (cases x) auto

lemma after_spawn_Inr_sym:
  "Inr (r, s') = (case x of Inl failure \<Rightarrow> Inl failure | Inr s2 \<Rightarrow> Inr (d, s2)) \<longleftrightarrow> x = Inr s' \<and> r = d"
  by (cases x) auto

lemma after_spawn_Inl:
  "(case x of Inl failure \<Rightarrow> Inl failure | Inr s2 \<Rightarrow> Inr (d, s2)) = Inl f \<longleftrightarrow> x = Inl f"
  by (cases x) auto

lemma startDownload_InrE:
  assumes "startDownload e b s = Inr (r, s')"
  obtains book u space durl fname where
    "getBookById e b = Some book" "book_url book = Some u" "u \<noteq> []"
    "getDiskSpace e (getSetting e DownloadFolder s) = Inr space"
    "hasEnoughSpace (available space) (fl ((case book_size book of None \<Rightarrow> 0 | Some k \<Rightarrow> k) * 1024))"
    "resolveMeta4Url e u = Inr (durl, fname)"
proof (cases "getBookById e b")
  case None
  with assms show ?thesis by (simp add: startDownload_def)
next
  case (Some book)
  note book = this
  show ?thesis
  proof (cases "book_url book")
    case None
    with assms book show ?thesis by (simp add: startDownload_def truthy_def)
  next
    case (Some u)
    note u = this
    with assms book have ne: "u \<noteq> []"
      by (auto simp: startDownload_def truthy_def split: if_splits)
    show ?thesis
    proof (cases "getDiskSpace e (getSetting e DownloadFolder s)")
      case (Inl err)
      with assms book u ne show ?thesis by (simp add: startDownload_def truthy_def Let_def)
    next
      case (Inr space)
      note space = this
      with assms book u ne
      have enough: "hasEnoughSpace (available space) (fl ((case book_size book of None \<Rightarrow> 0 | Some k \<Rightarrow> k) * 1024))"
        by (auto simp: startDownload_def truthy_def Let_def split: if_splits)
      show ?thesis
      proof (cases "resolveMeta4Url e u")
        case (Inl err)
        with assms book u ne space enough show ?thesis
          by (simp add: startDownload_def truthy_def Let_def)
      next
        case (Inr p)
        then obtain durl fname where "resolveMeta4Url e u = Inr (durl, fname)"
          by (cases p) auto
        with book u ne space enough show ?thesis by (rule that)
      qed
    qed
  qed
qed

text \<open>The upsert and the spawn, once the checks before them have passed.\<close>

lemma startDownload_checked:
  assumes "getBookById e b = Some book" "book_url book = Some u" "u \<noteq> []"
    "getDiskSpace e (getSetting e DownloadFolder s) = Inr space"
    "hasEnoughSpace (available space) (fl ((case book_size book of None \<Rightarrow> 0 | Some k \<Rightarrow> k) * 1024))"
    "resolveMeta4Url e u = Inr (durl, fname)"
  shows "startDownload e b s =
     (case getDownloadByBookId b s of
        Some ex \<Rightarrow>
          if status ex = Downloading then Inl (AlreadyInProgress b, s)
          else
            (case getDownloadById (id_col ex) s of
               None \<Rightarrow>
                 Inl (TypeError,
                      s\<lparr>downloads :=
                           updateWhere (\<lambda>d. id_col d = id_col ex)
                             (\<lambda>d. d\<lparr>status := Downloading, startedAt := Some (now e), error := None\<rparr>)
                             (downloads s)\<rparr>)
             | Some d0 \<Rightarrow>
                 (case spawnWget e (id_col ex) durl
                         (pathJoin e (getSetting e DownloadFolder s) fname) (fl ((case book_size book of None \<Rightarrow> 0 | Some k \<Rightarrow> k) * 1024))
                         \<lparr>bi_bookId = book_id book, bi_catalogDate = book_date book, bi_fileName = fname\<rparr>
                         (s\<lparr>downloads :=
                              updateWhere (\<lambda>d. id_col d = id_col ex)
                                (\<lambda>d. d\<lparr>status := Downloading, startedAt := Some (now e), error := None\<rparr>)
                                (downloads s)\<rparr>) of
                    Inl failure \<Rightarrow> Inl failure
                  | Inr s2 \<Rightarrow>
                      Inr (d0\<lparr>status := Downloading, startedAt := Some (now e), error := None\<rparr>, s2)))
      | None \<Rightarrow>
          (case spawnWget e (nextKey (downloads_seq s) (map id_col (downloads s))) durl
                  (pathJoin e (getSetting e DownloadFolder s) fname) (fl ((case book_size book of None \<Rightarrow> 0 | Some k \<Rightarrow> k) * 1024))
                  \<lparr>bi_bookId = book_id book, bi_catalogDate = book_date book, bi_fileName = fname\<rparr>
                  (s\<lparr>downloads := downloads s @
                       [\<lparr>id_col = nextKey (downloads_seq s) (map id_col (downloads s)),
                         bookId = Some b, status = Downloading,
                         filePath = Some (pathJoin e (getSetting e DownloadFolder s) fname),
                         bytesDownloaded = Some 0, totalBytes = Some (fl ((case book_size book of None \<Rightarrow> 0 | Some k \<Rightarrow> k) * 1024)),
                         pid = None, startedAt = Some (now e), completedAt = None, error = None\<rparr>],
                     downloads_seq := nextKey (downloads_seq s) (map id_col (downloads s))\<rparr>) of
             Inl failure \<Rightarrow> Inl failure
           | Inr s2 \<Rightarrow>
               Inr (\<lparr>id_col = nextKey (downloads_seq s) (map id_col (downloads s)),
                     bookId = Some b, status = Downloading,
                     filePath = Some (pathJoin e (getSetting e DownloadFolder s) fname),
                     bytesDownloaded = Some 0, totalBytes = Some (fl ((case book_size book of None \<Rightarrow> 0 | Some k \<Rightarrow> k) * 1024)),
                     pid = None, startedAt = Some (now e), completedAt = None, error = None\<rparr>, s2)))"
proof (cases "getDownloadByBookId b s")
  case None
  then have "take (Suc 0) (selectWhere (\<lambda>d. bookId d = Some b) (downloads s)) = []"
    by (simp add: getDownloadByBookId_find selectWhere_def take1_filter)
  with assms None show ?thesis
    by (simp add: startDownload_def truthy_def Let_def)
next
  case (Some ex)
  then have t: "take (Suc 0) (selectWhere (\<lambda>d. bookId d = Some b) (downloads s)) = [ex]"
    by (simp add: getDownloadByBookId_find selectWhere_def take1_filter)
  from Some obtain d0 where d0: "getDownloadById (id_col ex) s = Some d0" "id_col d0 = id_col ex"
    using find_Some_id [of "\<lambda>d. bookId d = Some b" "downloads s" ex]
    by (auto simp: getDownloadByBookId_find getDownloadById_find)
  have sel: "(case selectWhere (\<lambda>d. id_col d = id_col ex)
                 (updateWhere (\<lambda>d. id_col d = id_col ex) f (downloads s)) of
               [] \<Rightarrow> a | x # ys \<Rightarrow> g x) = g (f d0)"
    if "\<And>d. id_col (f d) = id_col d" for f and a :: 'z and g
    using d0 that
    by (simp add: selectWhere_def case_filter_find find_updateWhere_id getDownloadById_find)
  show ?thesis
    using assms Some t d0
    by (simp add: startDownload_def truthy_def Let_def sel)
qed

lemma startDownload_busy:
  assumes "getBookById e b = Some book" "book_url book = Some u" "u \<noteq> []"
    "getDiskSpace e (getSetting e DownloadFolder s) = Inr space"
    "hasEnoughSpace (available space) (fl ((case book_size book of None \<Rightarrow> 0 | Some k \<Rightarrow> k) * 1024))"
    "resolveMeta4Url e u = Inr (durl, fname)"
    "getDownloadByBookId b s = Some ex" "status ex = Downloading"
  shows "startDownload e b s = Inl (AlreadyInProgress b, s)"
  using assms by (simp add: startDownload_checked)

lemma startDownload_existing:
  assumes "getBookById e b = Some book" "book_url book = Some u" "u \<noteq> []"
    "getDiskSpace e (getSetting e DownloadFolder s) = Inr space"
    "hasEnoughSpace (available space) (fl ((case book_size book of None \<Rightarrow> 0 | Some k \<Rightarrow> k) * 1024))"
    "resolveMeta4Url e u = Inr (durl, fname)"
    "getDownloadByBookId b s = Some ex" "status ex \<noteq> Downloading"
  shows "\<exists>d0. getDownloadById (id_col ex) s = Some d0 \<and>
     startDownload e b s =
       (case spawnWget e (id_col ex) durl
               (pathJoin e (getSetting e DownloadFolder s) fname) (fl ((case book_size book of None \<Rightarrow> 0 | Some k \<Rightarrow> k) * 1024))
               \<lparr>bi_bookId = book_id book, bi_catalogDate = book_date book, bi_fileName = fname\<rparr>
               (s\<lparr>downloads :=
                    updateWhere (\<lambda>d. id_col d = id_col ex)
                      (\<lambda>d. d\<lparr>status := Downloading, startedAt := Some (now e), error := None\<rparr>)
                      (downloads s)\<rparr>) of
          Inl failure \<Rightarrow> Inl failure
        | Inr s2 \<Rightarrow> Inr (d0\<lparr>status := Downloading, startedAt := Some (now e), error := None\<rparr>, s2))"
proof -
  from assms(7) obtain d0 where d0: "getDownloadById (id_col ex) s = Some d0"
    using find_Some_id [of "\<lambda>d. bookId d = Some b" "downloads s" ex]
    by (auto simp: getDownloadByBookId_find getDownloadById_find)
  with assms show ?thesis by (simp add: startDownload_checked)
qed

lemma startDownload_new:
  assumes "getBookById e b = Some book" "book_url book = Some u" "u \<noteq> []"
    "getDiskSpace e (getSetting e DownloadFolder s) = Inr space"
    "hasEnoughSpace (available space) (fl ((case book_size book of None \<Rightarrow> 0 | Some k \<Rightarrow> k) * 1024))"
    "resolveMeta4Url e u = Inr (durl, fname)"
    "getDownloadByBookId b s = None"
  shows "startDownload e b s =
          (case spawnWget e (nextKey (downloads_seq s) (map id_col (downloads s))) durl
                  (pathJoin e (getSetting e DownloadFolder s) fname) (fl ((case book_size book of None \<Rightarrow> 0 | Some k \<Rightarrow> k) * 1024))
                  \<lparr>bi_bookId = book_id book, bi_catalogDate = book_date book, bi_fileName = fname\<rparr>
                  (s\<lparr>downloads := downloads s @
                       [\<lparr>id_col = nextKey (downloads_seq s) (map id_col (downloads s)),
                         bookId = Some b, status = Downloading,
                         filePath = Some (pathJoin e (getSetting e DownloadFolder s) fname),
                         bytesDownloaded = Some 0, totalBytes = Some (fl ((case book_size book of None \<Rightarrow> 0 | Some k \<Rightarrow> k) * 1024)),
                         pid = None, startedAt = Some (now e), completedAt = None, error = None\<rparr>],
                     downloads_seq := nextKey (downloads_seq s) (map id_col (downloads s))\<rparr>) of
             Inl failure \<Rightarrow> Inl failure
           | Inr s2 \<Rightarrow>
               Inr (\<lparr>id_col = nextKey (downloads_seq s) (map id_col (downloads s)),
                     bookId = Some b, status = Downloading,
                     filePath = Some (pathJoin e (getSetting e DownloadFolder s) fname),
                     bytesDownloaded = Some 0, totalBytes = Some (fl ((case book_size book of None \<Rightarrow> 0 | Some k \<Rightarrow> k) * 1024)),
                     pid = None, startedAt = Some (now e), completedAt = None, error = None\<rparr>, s2))"
  using assms by (simp add: startDownload_checked)

text \<open>What a successful start does to a column that neither update touches.\<close>

lemma startDownload_column:
  assumes ok: "startDownload e b s = Inr (r, s')"
    and g: "\<And>d p. g (d\<lparr>pid := p\<rparr>) = g d"
           "\<And>d t. g (d\<lparr>status := Downloading, startedAt := Some t, error := None\<rparr>) = g d"
  shows "(getDownloadByBookId b s = None \<longrightarrow> map g (downloads s') = map g (downloads s) @ [g r])
       \<and> (getDownloadByBookId b s \<noteq> None \<longrightarrow> map g (downloads s') = map g (downloads s))"
proof -
  from ok obtain book u space durl fname where h:
    "getBookById e b = Some book" "book_url book = Some u" "u \<noteq> []"
    "getDiskSpace e (getSetting e DownloadFolder s) = Inr space"
    "hasEnoughSpace (available space) (fl ((case book_size book of None \<Rightarrow> 0 | Some k \<Rightarrow> k) * 1024))"
    "resolveMeta4Url e u = Inr (durl, fname)"
    by (rule startDownload_InrE)
  show ?thesis
  proof (cases "getDownloadByBookId b s")
    case None
    from startDownload_new [OF h None] ok obtain s1 where
      sp: "spawnWget e (nextKey (downloads_seq s) (map id_col (downloads s))) durl
             (pathJoin e (getSetting e DownloadFolder s) fname) (fl ((case book_size book of None \<Rightarrow> 0 | Some k \<Rightarrow> k) * 1024))
             \<lparr>bi_bookId = book_id book, bi_catalogDate = book_date book, bi_fileName = fname\<rparr> s1
           = Inr s'"
      and s1: "downloads s1 = downloads s @ [r]"
      by (auto simp: after_spawn_Inr after_spawn_Inr_sym)
    from spawnWget_map [OF sp, of g] s1 None show ?thesis
      by (simp add: g)
  next
    case (Some ex)
    show ?thesis
    proof (cases "status ex = Downloading")
      case True
      from startDownload_busy [OF h Some True] ok show ?thesis by simp
    next
      case False
      from startDownload_existing [OF h Some False] ok obtain s1 where
        sp: "spawnWget e (id_col ex) durl
               (pathJoin e (getSetting e DownloadFolder s) fname) (fl ((case book_size book of None \<Rightarrow> 0 | Some k \<Rightarrow> k) * 1024))
               \<lparr>bi_bookId = book_id book, bi_catalogDate = book_date book, bi_fileName = fname\<rparr> s1
             = Inr s'"
        and s1: "downloads s1 =
                   updateWhere (\<lambda>d. id_col d = id_col ex)
                     (\<lambda>d. d\<lparr>status := Downloading, startedAt := Some (now e), error := None\<rparr>)
                     (downloads s)"
        by (auto simp: after_spawn_Inr after_spawn_Inr_sym)
      from spawnWget_map [OF sp, of g] s1 Some show ?thesis
        by (simp add: g map_updateWhere_inv)
    qed
  qed
qed

text \<open>The example states are the ones the manager reaches from the empty store.\<close>

lemma runningState_reached:
  "startDownload (exampleEnv 3000000000) ''a'' emptyState
     = Inr ((rowA Downloading)\<lparr>pid := None\<rparr>, runningState)"
  by (simp add: start_defs resolver_defs example_defs)

lemma pausedState_reached: "pauseDownload 1 runningState = pausedState"
  by (simp add: pauseDownload_def liveHandle_def updateWhere_def example_defs)

lemma staleState_reached:
  "map_sum id (\<lambda>(r, s). emitClose earlierEnv (exampleProc 1 ''b'' 2048000) (Some 8) s)
     (startDownload earlierEnv ''b'' emptyState) = Inr staleState"
  by (simp add: emitClose_def listening_def onClose_def getDownloadById_def showCode_def start_defs
        resolver_defs example_defs earlierEnv_def staleState_def staleRow_def)

section \<open>Disk admission\<close>

text \<open>
  C3, as the code has it.  The check compares the free space with the double sum of
  the required bytes and 1073741824.  Whenever that sum is a double, in particular
  for non-negative required bytes with a sum of at most \<open>2^53\<close>, the check admits
  exactly when the free space is at least the required bytes plus 1073741824;
  2050000000 free bytes are rejected and 3000000000 accepted for 1000000000 required
  bytes.  \<^verbatim>\<open>startDownload\<close> throws the disk-space error, with both figures and with
  nothing changed, when the check fails for the book's size, and every start that
  succeeds has passed the check.
\<close>

theorem disk_admission:
  "(fl (required + 1073741824) = required + 1073741824 \<longrightarrow>
      (hasEnoughSpace avail required \<longleftrightarrow> avail \<ge> required + 1073741824))
   \<and> (0 \<le> required \<and> required + 1073741824 \<le> 9007199254740992 \<longrightarrow>
      (hasEnoughSpace avail required \<longleftrightarrow> avail \<ge> required + 1073741824))
   \<and> \<not> hasEnoughSpace 2050000000 1000000000
   \<and> hasEnoughSpace 3000000000 1000000000
   \<and> (getBookById e bId = Some book \<and> truthy (book_url book)
        \<and> getDiskSpace e (getSetting e DownloadFolder s) = Inr space
        \<and> \<not> hasEnoughSpace (available space) (fl ((case book_size book of None \<Rightarrow> 0 | Some k \<Rightarrow> k) * 1024))
      \<longrightarrow> startDownload e bId s = Inl (NotEnoughDiskSpace (fl ((case book_size book of None \<Rightarrow> 0 | Some k \<Rightarrow> k) * 1024)) (available space), s))
   \<and> (startDownload e bId s = Inr (r, s') \<longrightarrow>
        (\<exists>book space. getBookById e bId = Some book
           \<and> getDiskSpace e (getSetting e DownloadFolder s) = Inr space
           \<and> hasEnoughSpace (available space) (fl ((case book_size book of None \<Rightarrow> 0 | Some k \<Rightarrow> k) * 1024))))"
proof -
  have a: "hasEnoughSpace avail required \<longleftrightarrow> avail \<ge> required + 1073741824"
    if "fl (required + 1073741824) = required + 1073741824" for avail required
    using that by (simp add: hasEnoughSpace_def)
  have a': "hasEnoughSpace avail required \<longleftrightarrow> avail \<ge> required + 1073741824"
    if "0 \<le> required \<and> required + 1073741824 \<le> 9007199254740992" for avail required
  proof -
    from that have "\<bar>required + 1073741824\<bar> \<le> 9007199254740992" by simp
    from fl_exact [OF this] show ?thesis by (rule a)
  qed
  have n: "\<not> hasEnoughSpace 2050000000 1000000000" and y: "hasEnoughSpace 3000000000 1000000000"
    by (simp_all add: a')
  have b: "startDownload e bId s = Inl (NotEnoughDiskSpace (fl ((case book_size book of None \<Rightarrow> 0 | Some k \<Rightarrow> k) * 1024)) (available space), s)"
    if "getBookById e bId = Some book \<and> truthy (book_url book)
        \<and> getDiskSpace e (getSetting e DownloadFolder s) = Inr space
        \<and> \<not> hasEnoughSpace (available space) (fl ((case book_size book of None \<Rightarrow> 0 | Some k \<Rightarrow> k) * 1024))"
    using that by (simp add: startDownload_def Let_def)
  have c: "\<exists>book space. getBookById e bId = Some book
           \<and> getDiskSpace e (getSetting e DownloadFolder s) = Inr space
           \<and> hasEnoughSpace (available space) (fl ((case book_size book of None \<Rightarrow> 0 | Some k \<Rightarrow> k) * 1024))"
    if "startDownload e bId s = Inr (r, s')"
    using that by (elim startDownload_InrE) auto
  show ?thesis
  proof (intro conjI impI)
    assume "fl (required + 1073741824) = required + 1073741824"
    then show "hasEnoughSpace avail required = (required + 1073741824 \<le> avail)" by (rule a)
  next
    assume "0 \<le> required \<and> required + 1073741824 \<le> 9007199254740992"
    then show "hasEnoughSpace avail required = (required + 1073741824 \<le> avail)" by (rule a')
  next
    show "\<not> hasEnoughSpace 2050000000 1000000000" by (rule n)
    show "hasEnoughSpace 3000000000 1000000000" by (rule y)
  next
    assume "getBookById e bId = Some book \<and> truthy (book_url book)
        \<and> getDiskSpace e (getSetting e DownloadFolder s) = Inr space
        \<and> \<not> hasEnoughSpace (available space) (fl ((case book_size book of None \<Rightarrow> 0 | Some k \<Rightarrow> k) * 1024))"
    then show "startDownload e bId s = Inl (NotEnoughDiskSpace (fl ((case book_size book of None \<Rightarrow> 0 | Some k \<Rightarrow> k) * 1024)) (available space), s)"
      by (rule b)
  next
    assume "startDownload e bId s = Inr (r, s')"
    then show "\<exists>book space. getBookById e bId = Some book
           \<and> getDiskSpace e (getSetting e DownloadFolder s) = Inr space
           \<and> hasEnoughSpace (available space) (fl ((case book_size book of None \<Rightarrow> 0 | Some k \<Rightarrow> k) * 1024))"
      by (rule c)
  qed
qed

theorem disk_admission_witness:
  "fl (1000000000 + 1073741824) = 1000000000 + 1073741824
   \<and> \<not> hasEnoughSpace 2050000000 1000000000
   \<and> getBookById (exampleEnv 2050000000) ''a'' = Some bookA \<and> truthy (book_url bookA)
   \<and> getDiskSpace (exampleEnv 2050000000) (getSetting (exampleEnv 2050000000) DownloadFolder emptyState)
       = Inr (exampleSpace 2050000000)
   \<and> \<not> hasEnoughSpace 2050000000 1000000512
   \<and> startDownload (exampleEnv 2050000000) ''a'' emptyState
       = Inl (NotEnoughDiskSpace 1000000512 2050000000, emptyState)
   \<and> startDownload (exampleEnv 3000000000) ''a'' emptyState
       = Inr ((rowA Downloading)\<lparr>pid := None\<rparr>, runningState)
   \<and> hasEnoughSpace 3000000000 1000000512"
proof -
  have h0: "fl (1000000000 + 1073741824) = 1000000000 + 1073741824"
    by (simp add: fl_exact)
  have h0': "(0::int) \<le> 1000000000 \<and> (1000000000::int) + 1073741824 \<le> 9007199254740992"
    by simp
  have h1: "getBookById (exampleEnv 2050000000) ''a'' = Some bookA"
    by (simp add: getBookById_def selectWhere_def example_defs)
  have h2: "truthy (book_url bookA)"
    by (simp add: truthy_def bookA_def)
  have h3: "getDiskSpace (exampleEnv 2050000000)
              (getSetting (exampleEnv 2050000000) DownloadFolder emptyState)
            = Inr (exampleSpace 2050000000)"
    by (simp add: getDiskSpace_def exampleEnv_def)
  have rq: "fl ((case book_size bookA of None \<Rightarrow> 0 | Some k \<Rightarrow> k) * 1024) = 1000000512"
    by (simp add: bookA_def fl_exact)
  have av: "available (exampleSpace 2050000000) = 2050000000"
    by (simp add: exampleSpace_def)
  have h4: "\<not> hasEnoughSpace (available (exampleSpace 2050000000))
              (fl ((case book_size bookA of None \<Rightarrow> 0 | Some k \<Rightarrow> k) * 1024))"
    by (simp add: rq av hasEnoughSpace_def fl_exact)
  have h5: "startDownload (exampleEnv 3000000000) ''a'' emptyState
              = Inr ((rowA Downloading)\<lparr>pid := None\<rparr>, runningState)"
    by (rule runningState_reached)
  note d1 = disk_admission [of 1000000000 2050000000 "exampleEnv 2050000000" "''a''" bookA emptyState
         "exampleSpace 2050000000"]
  from d1 h0 have c0: "\<not> hasEnoughSpace 2050000000 1000000000"
    by simp
  from d1 h1 h2 h3 h4
  have c1: "startDownload (exampleEnv 2050000000) ''a'' emptyState
            = Inl (NotEnoughDiskSpace 1000000512 2050000000, emptyState)"
    by (simp add: rq av)
  from disk_admission [of 1000000000 2050000000 "exampleEnv 3000000000" "''a''" bookA emptyState _
         "(rowA Downloading)\<lparr>pid := None\<rparr>" runningState] h5
  have "\<exists>book space. getBookById (exampleEnv 3000000000) ''a'' = Some book
           \<and> getDiskSpace (exampleEnv 3000000000)
                (getSetting (exampleEnv 3000000000) DownloadFolder emptyState) = Inr space
           \<and> hasEnoughSpace (available space)
                (fl ((case book_size book of None \<Rightarrow> 0 | Some k \<Rightarrow> k) * 1024))"
    by simp
  then have c2: "hasEnoughSpace 3000000000 1000000512"
    by (auto simp: getBookById_def selectWhere_def getDiskSpace_def example_defs fl_exact)
  from h4 have c3: "\<not> hasEnoughSpace 2050000000 1000000512"
    by (simp add: rq av)
  show ?thesis
    by (intro conjI) (rule h0 c0 h1 h2 h3 c3 c1 h5 c2)+
qed

text \<open>
  C3 as stated, for all non-negative integers, fails where the sum is not a double:
  with 18014398509481978 required bytes the sum lies halfway between two doubles and
  is rounded down, so 18014399583223800 free bytes are admitted although they are
  two bytes short of the required bytes plus 1073741824.
\<close>

theorem disk_admission_rounding_counterexample:
  "hasEnoughSpace 18014399583223800 18014398509481978
   \<and> \<not> ((18014399583223800::int) \<ge> 18014398509481978 + 1073741824)"
proof -
  have "fl 18014399583223802 = 18014399583223800"
    by (simp add: fl_def ulp_def bitlen.simps)
  then show ?thesis
    by (simp add: hasEnoughSpace_def)
qed

section \<open>Progress reports\<close>

text \<open>
  C9.  For an existing download whose stored \<^verbatim>\<open>totalBytes\<close> is 0 or null, the
  progress report has percentage 0: the quotient is only formed when the total is
  positive.
\<close>

theorem progress_percentage_zero:
  "getDownloadById dlId s = Some d \<Longrightarrow> totalBytes d = Some 0 \<or> totalBytes d = None \<Longrightarrow>
     map_option percentage (getDownloadProgress e dlId s) = Some 0"
  by (auto simp: getDownloadProgress_def Let_def)


theorem progress_percentage_zero_witness:
  "getDownloadById 1 (runningState\<lparr>downloads := [(rowA Downloading)\<lparr>totalBytes := Some 0\<rparr>]\<rparr>)
     = Some ((rowA Downloading)\<lparr>totalBytes := Some 0\<rparr>)
   \<and> map_option percentage
        (getDownloadProgress (exampleEnv 3000000000) 1
           (runningState\<lparr>downloads := [(rowA Downloading)\<lparr>totalBytes := Some 0\<rparr>]\<rparr>)) = Some 0"
proof -
  have h: "getDownloadById 1 (runningState\<lparr>downloads := [(rowA Downloading)\<lparr>totalBytes := Some 0\<rparr>]\<rparr>)
             = Some ((rowA Downloading)\<lparr>totalBytes := Some 0\<rparr>)"
    by (simp add: getDownloadById_def selectWhere_def example_defs)
  from progress_percentage_zero [OF h, of "exampleEnv 3000000000"] h show ?thesis
    by simp
qed

section \<open>Mirror selection\<close>

lemma parseInt10_99: "parseInt10 ''99'' = Finite 99"
  by (simp add: parseInt10_def digitVal_def isWhiteSpace_def toNumber_exact)

lemma toCandidate_url: "cand_url (toCandidate u) = itemUrl u"
  by (cases u) (simp_all add: toCandidate_def itemUrl_def)

lemma toCandidate_missing: "declaredPriority u = None \<Longrightarrow> cand_priority (toCandidate u) = Finite 99"
  by (cases u) (simp_all add: toCandidate_def declaredPriority_def parseInt10_99)

lemma jsLess_Finite [simp]: "jsLess (Finite x) (Finite y) \<longleftrightarrow> x < y"
  by (simp add: jsLess_def)

lemma jsLess_irrefl: "\<not> jsLess a a"
  by (cases a) (simp_all add: jsLess_def)

lemma jsLess_trans: "jsLess a b \<Longrightarrow> jsLess b c \<Longrightarrow> jsLess a c"
  by (cases a; cases b; cases c) (simp_all add: jsLess_def)

lemma jsLess_total:
  "a \<noteq> NaN \<Longrightarrow> b \<noteq> NaN \<Longrightarrow> c \<noteq> NaN \<Longrightarrow> \<not> jsLess b a \<Longrightarrow> jsLess b c \<Longrightarrow> jsLess a c"
  by (cases a; cases b; cases c) (simp_all add: jsLess_def)

lemma positive_simps:
  "positive (Finite x) \<longleftrightarrow> 0 < x" "positive PosInf" "\<not> positive NegInf" "\<not> positive NaN"
  by (simp_all add: positive_def)

lemma positive_jsSub: "a \<noteq> NaN \<Longrightarrow> b \<noteq> NaN \<Longrightarrow> positive (jsSub a b) \<longleftrightarrow> jsLess b a"
  by (cases a; cases b) (simp_all add: positive_toNumber positive_simps jsLess_def)

lemma positive_compare:
  "numericPriority a \<Longrightarrow> numericPriority b \<Longrightarrow>
     positive (comparePriority a b) \<longleftrightarrow> jsLess (cand_priority b) (cand_priority a)"
  by (simp add: comparePriority_def numericPriority_def positive_jsSub)

lemma sortUrls_Cons: "sortUrls (c # cs) = insertUrl c (sortUrls cs)"
  by (simp add: sortUrls_def)

lemma sortUrls_Nil: "sortUrls [] = []"
  by (simp add: sortUrls_def)

lemma sortUrls_head:
  assumes "cs \<noteq> []" and "\<forall>c\<in>set cs. numericPriority c"
  shows "\<exists>pre x post ys. cs = pre @ x # post \<and> sortUrls cs = x # ys
           \<and> (\<forall>y\<in>set pre. jsLess (cand_priority x) (cand_priority y))
           \<and> (\<forall>y\<in>set post. \<not> jsLess (cand_priority y) (cand_priority x))"
  using assms
proof (induction cs)
  case Nil
  then show ?case by simp
next
  case (Cons c cs)
  from Cons.prems have nc: "numericPriority c" by simp
  show ?case
  proof (cases "cs = []")
    case True
    have "c # cs = [] @ c # []" using True by simp
    moreover have "sortUrls (c # cs) = c # []" using True by (simp add: sortUrls_Cons sortUrls_Nil)
    ultimately show ?thesis by fastforce
  next
    case False
    have num: "\<forall>c\<in>set cs. numericPriority c" using Cons.prems by simp
    from Cons.IH [OF False this] obtain pre x post ys where ih:
      "cs = pre @ x # post" "sortUrls cs = x # ys"
      "\<forall>y\<in>set pre. jsLess (cand_priority x) (cand_priority y)"
      "\<forall>y\<in>set post. \<not> jsLess (cand_priority y) (cand_priority x)"
      by blast
    from ih(1) num have nx: "numericPriority x" by simp
    show ?thesis
    proof (cases "jsLess (cand_priority x) (cand_priority c)")
      case True
      have s: "sortUrls (c # cs) = x # insertUrl c ys"
        using ih(2) True by (simp add: sortUrls_Cons positive_compare [OF nc nx])
      have d: "c # cs = (c # pre) @ x # post" using ih(1) by simp
      have "\<forall>y\<in>set (c # pre). jsLess (cand_priority x) (cand_priority y)"
        using ih(3) True by simp
      with s d ih(4) show ?thesis by blast
    next
      case False
      have s: "sortUrls (c # cs) = c # x # ys"
        using ih(2) False by (simp add: sortUrls_Cons positive_compare [OF nc nx])
      have d: "c # cs = [] @ c # cs" by simp
      have "\<not> jsLess (cand_priority y) (cand_priority c)" if y: "y \<in> set cs" for y
      proof
        assume l: "jsLess (cand_priority y) (cand_priority c)"
        from y num have ny: "numericPriority y" by simp
        from y ih(1) consider "y \<in> set pre" | "y = x" | "y \<in> set post" by auto
        then show False
        proof cases
          case 1
          with ih(3) have "jsLess (cand_priority x) (cand_priority y)" by simp
          from jsLess_trans [OF this l] False show False by simp
        next
          case 2
          with l False show False by simp
        next
          case 3
          with ih(4) have "\<not> jsLess (cand_priority y) (cand_priority x)" by simp
          from jsLess_total [OF _ _ _ this l] nx ny nc False show False
            by (simp add: numericPriority_def)
        qed
      qed
      with s d show ?thesis by (metis empty_iff empty_set)
    qed
  qed
qed

lemma selectUrl_head:
  assumes "items \<noteq> []" and "\<forall>u\<in>set items. numericPriority (toCandidate u)"
  shows "\<exists>pre x post. items = pre @ x # post
           \<and> (\<forall>y\<in>set pre. jsLess (cand_priority (toCandidate x)) (cand_priority (toCandidate y)))
           \<and> (\<forall>y\<in>set post. \<not> jsLess (cand_priority (toCandidate y)) (cand_priority (toCandidate x)))
           \<and> selectUrl e (Several items) = Inr (itemUrl x)"
proof -
  from assms have ne: "map toCandidate items \<noteq> []"
    and fin: "\<forall>c\<in>set (map toCandidate items). numericPriority c"
    by auto
  from fin have la: "list_all numericPriority (map toCandidate items)"
    by (simp add: list_all_iff)
  from sortUrls_head [OF ne fin] obtain pre' x' post' ys where h:
    "map toCandidate items = pre' @ x' # post'" "sortUrls (map toCandidate items) = x' # ys"
    "\<forall>y\<in>set pre'. jsLess (cand_priority x') (cand_priority y)"
    "\<forall>y\<in>set post'. \<not> jsLess (cand_priority y) (cand_priority x')"
    by blast
  from h(1) obtain pre x post where d: "items = pre @ x # post" "map toCandidate pre = pre'"
    "toCandidate x = x'" "map toCandidate post = post'"
    by (auto simp: map_eq_append_conv map_eq_Cons_conv)
  have sel: "selectUrl e (Several items) = Inr (itemUrl x)"
    using h(2) d(3) la by (simp add: selectUrl_def Let_def toCandidate_url [symmetric])
  from d h(3,4) sel show ?thesis by fastforce
qed

lemma selectUrl_all_missing:
  assumes "\<forall>v\<in>set (u # rest). declaredPriority v = None"
  shows "selectUrl e (Several (u # rest)) = Inr (itemUrl u)"
proof -
  have all99: "\<forall>v\<in>set (u # rest). cand_priority (toCandidate v) = Finite 99"
    using assms toCandidate_missing by blast
  then have "\<forall>v\<in>set (u # rest). numericPriority (toCandidate v)"
    by (simp add: numericPriority_def)
  from selectUrl_head [OF _ this, of e] obtain pre x post where h:
    "u # rest = pre @ x # post"
    "\<forall>y\<in>set pre. jsLess (cand_priority (toCandidate x)) (cand_priority (toCandidate y))"
    "selectUrl e (Several (u # rest)) = Inr (itemUrl x)"
    by blast
  have "x \<in> set (u # rest)" using h(1) by (metis in_set_conv_decomp)
  with all99 have p: "cand_priority (toCandidate x) = Finite 99" by blast
  have "pre = []"
  proof (rule ccontr)
    assume "pre \<noteq> []"
    then obtain y where y: "y \<in> set pre" by (cases pre) auto
    then have "y \<in> set (u # rest)" using h(1) by (metis Un_iff set_append)
    with all99 have "cand_priority (toCandidate y) = Finite 99" by blast
    with h(2) y p show False by fastforce
  qed
  with h(1) have "x = u" by simp
  with h(3) show ?thesis by simp
qed

text \<open>
  C4, as the code has it.  A single URL (a plain string or one object) is returned
  unchanged.  Of several URLs whose priority attributes all parse to numbers, the
  one returned is the first in document order among those of least priority, where a
  URL without a priority attribute counts as priority 99: it sorts after every
  declared priority below 99, keeps document order among equals, and sorts before a
  declared priority above 99.  Priorities 3, 1, 2 select the priority-1 URL, and URLs
  that all lack a priority select the first one.
\<close>

theorem mirror_selection:
  "selectUrl e (OneString str) = Inr str
   \<and> selectUrl e (OneObject txt loc prio) = Inr txt
   \<and> (declaredPriority u = None \<longrightarrow> cand_priority (toCandidate u) = Finite 99)
   \<and> (items \<noteq> [] \<and> (\<forall>v\<in>set items. cand_priority (toCandidate v) \<noteq> NaN) \<longrightarrow>
        (\<exists>pre x post. items = pre @ x # post
           \<and> (\<forall>y\<in>set pre. jsLess (cand_priority (toCandidate x)) (cand_priority (toCandidate y)))
           \<and> (\<forall>y\<in>set post. \<not> jsLess (cand_priority (toCandidate y)) (cand_priority (toCandidate x)))
           \<and> selectUrl e (Several items) = Inr (itemUrl x)))
   \<and> (jsLess (Finite p) (Finite q) \<longleftrightarrow> p < q)
   \<and> selectUrl e (Several [UrlObject u3 l3 (Some ''3''), UrlObject u1 l1 (Some ''1''),
                            UrlObject u2 l2 (Some ''2'')]) = Inr u1
   \<and> ((\<forall>v\<in>set (w # rest). declaredPriority v = None) \<longrightarrow>
         selectUrl e (Several (w # rest)) = Inr (itemUrl w))"
proof -
  have a: "selectUrl e (OneString str) = Inr str" by (simp add: selectUrl_def)
  have b: "selectUrl e (OneObject txt loc prio) = Inr txt" by (simp add: selectUrl_def)
  have c: "selectUrl e (Several [UrlObject u3 l3 (Some ''3''), UrlObject u1 l1 (Some ''1''),
                          UrlObject u2 l2 (Some ''2'')]) = Inr u1"
    by (simp add: resolver_defs)
  have d: "jsLess (Finite p) (Finite q) \<longleftrightarrow> p < q" by simp
  have h: "\<exists>pre x post. items = pre @ x # post
           \<and> (\<forall>y\<in>set pre. jsLess (cand_priority (toCandidate x)) (cand_priority (toCandidate y)))
           \<and> (\<forall>y\<in>set post. \<not> jsLess (cand_priority (toCandidate y)) (cand_priority (toCandidate x)))
           \<and> selectUrl e (Several items) = Inr (itemUrl x)"
    if "items \<noteq> [] \<and> (\<forall>v\<in>set items. cand_priority (toCandidate v) \<noteq> NaN)"
    using that selectUrl_head [of items e] by (simp add: numericPriority_def)
  show ?thesis
    using a b c d h toCandidate_missing [of u] selectUrl_all_missing [of w rest e]
    by blast
qed

theorem mirror_selection_witness:
  "declaredPriority plainMirror = None
   \<and> cand_priority (toCandidate plainMirror) = Finite 99
   \<and> declaredPriority bareMirror = None
   \<and> selectUrl (exampleEnv 0) (Several (plainMirror # [bareMirror])) = Inr (itemUrl plainMirror)
   \<and> exampleMirrors \<noteq> []
   \<and> (\<exists>x. x \<in> set exampleMirrors
         \<and> selectUrl (exampleEnv 0) (Several exampleMirrors) = Inr (itemUrl x))"
proof -
  have h1: "declaredPriority plainMirror = None"
    by (simp add: declaredPriority_def mirror_defs)
  have h2: "\<forall>v\<in>set (plainMirror # [bareMirror]). declaredPriority v = None"
    by (simp add: declaredPriority_def mirror_defs)
  have h3: "exampleMirrors \<noteq> []"
    by (simp add: mirror_defs)
  have h4: "\<forall>v\<in>set exampleMirrors. cand_priority (toCandidate v) \<noteq> NaN"
    by (simp add: resolver_defs mirror_defs)
  note ms = mirror_selection
    [where u = plainMirror and w = plainMirror and rest = "[bareMirror]" and items = exampleMirrors
       and e = "exampleEnv 0"]
  from ms h1 have c1: "cand_priority (toCandidate plainMirror) = Finite 99"
    by blast
  from ms h2
  have c2: "selectUrl (exampleEnv 0) (Several (plainMirror # [bareMirror])) = Inr (itemUrl plainMirror)"
    by blast
  note m4 = ms [THEN conjunct2, THEN conjunct2, THEN conjunct2, THEN conjunct1]
  from h3 h4 have "exampleMirrors \<noteq> [] \<and> (\<forall>v\<in>set exampleMirrors. cand_priority (toCandidate v) \<noteq> NaN)"
    by (rule conjI)
  from m4 [rule_format, OF this] obtain pre x post where
    d: "exampleMirrors = pre @ x # post"
    and e: "selectUrl (exampleEnv 0) (Several exampleMirrors) = Inr (itemUrl x)"
    by blast
  have "x \<in> set (pre @ x # post)"
    by simp
  with d have "x \<in> set exampleMirrors"
    by simp
  moreover have "declaredPriority bareMirror = None"
    by (simp add: declaredPriority_def mirror_defs)
  ultimately show ?thesis using e h1 h3 c1 c2 by blast
qed

text \<open>
  C4 as stated fails in two ways.  A URL without a priority does not always sort
  last: of a mirror with priority 100 followed by a mirror without priority, the
  second is sorted to the front and selected.  And the URLs are not always sorted by
  priority: when a priority attribute is not a number the comparator yields NaN, and
  of mirrors with priorities 2, \<^verbatim>\<open>high\<close> and 1 Node leaves the array as it is and the
  priority-2 mirror is selected.
\<close>

theorem mirror_selection_counterexample:
  "map cand_url (sortUrls (map toCandidate
       [UrlObject ''http://a.example/wiki.zim'' (Some ''de'') (Some ''100''),
        UrlObject ''http://b.example/wiki.zim'' (Some ''us'') None]))
     = [''http://b.example/wiki.zim'', ''http://a.example/wiki.zim'']
   \<and> selectUrl (exampleEnv 0) (Several
       [UrlObject ''http://a.example/wiki.zim'' (Some ''de'') (Some ''100''),
        UrlObject ''http://b.example/wiki.zim'' (Some ''us'') None])
     = Inr ''http://b.example/wiki.zim''
   \<and> selectUrl (exampleEnv 0) (Several
       [UrlObject ''http://m2.example/wiki.zim'' (Some ''fr'') (Some ''2''),
        UrlObject ''http://mh.example/wiki.zim'' (Some ''de'') (Some ''high''),
        UrlObject ''http://m1.example/wiki.zim'' (Some ''us'') (Some ''1'')])
     = Inr ''http://m2.example/wiki.zim''"
  by (simp add: resolver_defs engine_defs exampleEnv_def)

section \<open>Process exit reconciliation\<close>

lemma updateWhere_idem:
  assumes "\<And>d. P (f d) = P d" "\<And>d. f (f d) = f d"
  shows "updateWhere P f (updateWhere P f rows) = updateWhere P f rows"
  using assms by (induction rows) (auto simp: updateWhere_def)

lemma downloads_onClose_zero:
  "downloads (onClose e wget (Some 0) s) =
     updateWhere (\<lambda>d. id_col d = downloadId wget)
       (\<lambda>d. d\<lparr>status := Completed,
               bytesDownloaded :=
                 Some (case stat e (outputPath wget) of None \<Rightarrow> proc_totalBytes wget | Some sz \<Rightarrow> sz),
               completedAt := Some (now e), pid := None\<rparr>)
       (downloads s)"
  by (simp add: onClose_def Let_def split: list.splits)

lemma downloads_onClose_nonzero:
  "code \<noteq> Some 0 \<Longrightarrow>
   downloads (onClose e wget code s) =
     (if map_option status (getDownloadById (downloadId wget) s) \<noteq> Some Paused
      then updateWhere (\<lambda>d. id_col d = downloadId wget)
             (\<lambda>d. d\<lparr>status := Failed,
                     error := Some (''wget exited with code '' @ showCode code), pid := None\<rparr>)
             (downloads s)
      else downloads s)"
  by (auto simp: onClose_def Let_def getDownloadById_find)


text \<open>
  C1, as the code has it.  When the process closes with exit code 0 the handler
  removes the handle and marks the row \<^verbatim>\<open>completed\<close> (with the final size, the
  completion time and no pid) whatever status the row had; the zero branch never
  reads the status.
\<close>

theorem close_zero_completes:
  "getDownloadById (downloadId wget) s = Some d \<longrightarrow>
     getDownloadById (downloadId wget) (onClose e wget (Some 0) s)
       = Some (d\<lparr>status := Completed,
                 bytesDownloaded :=
                   Some (case stat e (outputPath wget) of None \<Rightarrow> proc_totalBytes wget | Some sz \<Rightarrow> sz),
                 completedAt := Some (now e), pid := None\<rparr>)
     \<and> map_option status (getDownloadById (downloadId wget) (onClose e wget (Some 0) s)) = Some Completed
     \<and> activeProcesses (onClose e wget (Some 0) s) (downloadId wget) = None"
proof -
  have "activeProcesses (onClose e wget (Some 0) s) (downloadId wget) = None"
    by (simp add: onClose_def Let_def split: list.splits)
  then show ?thesis
    by (simp add: getDownloadById_find downloads_onClose_zero find_updateWhere_id)
qed

theorem close_zero_completes_witness:
  "getDownloadById (downloadId (exampleProc 1 ''a'' 1000000512)) runningState = Some (rowA Downloading)
   \<and> map_option status
        (getDownloadById 1
           (onClose (exampleEnv 3000000000) (exampleProc 1 ''a'' 1000000512) (Some 0) runningState))
       = Some Completed
   \<and> activeProcesses
        (onClose (exampleEnv 3000000000) (exampleProc 1 ''a'' 1000000512) (Some 0) runningState) 1
       = None"
proof -
  have i: "downloadId (exampleProc 1 ''a'' 1000000512) = 1"
    by (simp add: exampleProc_def)
  have h: "getDownloadById (downloadId (exampleProc 1 ''a'' 1000000512)) runningState
             = Some (rowA Downloading)"
    by (simp add: exampleProc_def getDownloadById_find runningState_def rowA_def)
  from close_zero_completes
         [of "exampleProc 1 ''a'' 1000000512" runningState "rowA Downloading" "exampleEnv 3000000000"] h
  show ?thesis unfolding i by simp
qed


text \<open>
  C1 as stated fails: a row that is \<^verbatim>\<open>paused\<close>, with its handle registered, is
  \<^verbatim>\<open>completed\<close> after its process closes with code 0.
\<close>

theorem close_zero_paused_counterexample:
  "map_option status (getDownloadById 1 pausedState) = Some Paused
   \<and> activeProcesses pausedState 1 = Some (exampleProc 1 ''a'' 1000000512)
   \<and> map_option status
        (getDownloadById 1
           (onClose (exampleEnv 3000000000) (exampleProc 1 ''a'' 1000000512) (Some 0) pausedState))
       = Some Completed"
  by (simp add: getDownloadById_find downloads_onClose_zero updateWhere_def example_defs)


text \<open>
  The handlers reconcile as follows.  On a close with a non-zero (or null) exit code
  the row is left as it is when its stored status is \<^verbatim>\<open>paused\<close>, and is otherwise
  marked \<^verbatim>\<open>failed\<close> with the error \<^verbatim>\<open>wget exited with code N\<close> and no pid; so after
  the event the status is \<^verbatim>\<open>paused\<close> exactly when it was before.  The error handler
  marks the row \<^verbatim>\<open>failed\<close> with the error's message whatever its status was; it runs
  on the error event of every process that has a pid, and of no other.
\<close>

lemma nonzero_exit_reconciliation:
  "(code \<noteq> Some 0 \<and> getDownloadById (downloadId wget) s = Some d \<and> status d = Paused \<longrightarrow>
       downloads (onClose e wget code s) = downloads s)
   \<and> (code \<noteq> Some 0 \<and> getDownloadById (downloadId wget) s = Some d \<and> status d \<noteq> Paused \<longrightarrow>
       getDownloadById (downloadId wget) (onClose e wget code s)
         = Some (d\<lparr>status := Failed,
                   error := Some (''wget exited with code '' @ showCode code), pid := None\<rparr>))
   \<and> (code \<noteq> Some 0 \<and> getDownloadById (downloadId wget) s = Some d \<longrightarrow>
       (map_option status (getDownloadById (downloadId wget) (onClose e wget code s)) = Some Paused
          \<longleftrightarrow> status d = Paused))"
proof -
  have a: "downloads (onClose e wget code s) = downloads s"
    if "code \<noteq> Some 0" "getDownloadById (downloadId wget) s = Some d" "status d = Paused"
    using that by (simp add: downloads_onClose_nonzero)
  have b: "getDownloadById (downloadId wget) (onClose e wget code s)
         = Some (d\<lparr>status := Failed,
                   error := Some (''wget exited with code '' @ showCode code), pid := None\<rparr>)"
    if "code \<noteq> Some 0" "getDownloadById (downloadId wget) s = Some d" "status d \<noteq> Paused"
  proof -
    have "downloads (onClose e wget code s) =
            updateWhere (\<lambda>d. id_col d = downloadId wget)
              (\<lambda>d. d\<lparr>status := Failed,
                      error := Some (''wget exited with code '' @ showCode code), pid := None\<rparr>)
              (downloads s)"
      using that by (simp add: downloads_onClose_nonzero)
    then have "getDownloadById (downloadId wget) (onClose e wget code s)
         = map_option (\<lambda>d. d\<lparr>status := Failed,
                      error := Some (''wget exited with code '' @ showCode code), pid := None\<rparr>)
             (getDownloadById (downloadId wget) s)"
      by (simp add: getDownloadById_find find_updateWhere_id)
    with that(2) show ?thesis by simp
  qed
  have c: "map_option status (getDownloadById (downloadId wget) (onClose e wget code s)) = Some Paused
          \<longleftrightarrow> status d = Paused"
    if "code \<noteq> Some 0" "getDownloadById (downloadId wget) s = Some d"
  proof (cases "status d = Paused")
    case True
    from a [OF that True] have "getDownloadById (downloadId wget) (onClose e wget code s)
        = getDownloadById (downloadId wget) s"
      by (simp only: getDownloadById_find)
    with that(2) True show ?thesis by simp
  next
    case False
    with b [OF that False] show ?thesis by simp
  qed
  show ?thesis
  proof (intro conjI impI)
    assume "code \<noteq> Some 0 \<and> getDownloadById (downloadId wget) s = Some d \<and> status d = Paused"
    then show "downloads (onClose e wget code s) = downloads s" using a by blast
  next
    assume "code \<noteq> Some 0 \<and> getDownloadById (downloadId wget) s = Some d \<and> status d \<noteq> Paused"
    then show "getDownloadById (downloadId wget) (onClose e wget code s)
         = Some (d\<lparr>status := Failed,
                   error := Some (''wget exited with code '' @ showCode code), pid := None\<rparr>)"
      using b by blast
  next
    assume "code \<noteq> Some 0 \<and> getDownloadById (downloadId wget) s = Some d"
    then show "(map_option status (getDownloadById (downloadId wget) (onClose e wget code s)) = Some Paused)
          = (status d = Paused)"
      using c by blast
  qed
qed

lemma nonzero_exit_examples:
  "downloads (emitClose (exampleEnv 3000000000) (exampleProc 1 ''a'' 1000000512) (Some 8) pausedState)
       = downloads pausedState
   \<and> getDownloadById 1
        (emitClose (exampleEnv 3000000000) (exampleProc 1 ''a'' 1000000512) (Some 8) runningState)
       = Some ((rowA Downloading)\<lparr>status := Failed, error := Some ''wget exited with code 8'',
                                   pid := None\<rparr>)"
  by (simp add: emitClose_def listening_def onClose_def getDownloadById_def selectWhere_def
        updateWhere_def showCode_def example_defs)

lemma error_event_marks_failed:
  "listening wget \<and> getDownloadById (downloadId wget) s = Some d \<longrightarrow>
     getDownloadById (downloadId wget) (emitError wget message s)
       = Some (d\<lparr>status := Failed, error := Some message, pid := None\<rparr>)"
  by (simp add: emitError_def onError_def getDownloadById_find find_updateWhere_id)

lemma error_event_unheard: "\<not> listening wget \<Longrightarrow> emitError wget message s = s"
  by (simp add: emitError_def)

lemma error_event_example:
  "getDownloadById 1 (emitError (exampleProc 1 ''a'' 1000000512) ''write EPIPE'' pausedState)
     = Some ((rowA Paused)\<lparr>status := Failed, error := Some ''write EPIPE'', pid := None\<rparr>)"
  by (simp add: emitError_def listening_def onError_def getDownloadById_def selectWhere_def
        updateWhere_def example_defs)


text \<open>
  C8 fails on a spawn error.  The part on a non-zero exit holds, and so does the part
  on the error event of a process that was spawned (the three lemmas above).  But
  when the spawn itself fails, \<^verbatim>\<open>spawnWget\<close> throws \<^verbatim>\<open>No values to set\<close> at the pid
  write, before it attaches the error handler.  On a machine without \<^verbatim>\<open>wget\<close>,
  starting book \<open>a\<close> on the empty store fails with that error and leaves the new row
  \<^verbatim>\<open>downloading\<close>, with no pid and the dead handle registered; the process's error
  event finds no handler, and the row is \<^verbatim>\<open>downloading\<close> after it, not \<^verbatim>\<open>failed\<close>, with
  no error message.
\<close>

theorem spawn_error_not_marked_failed:
  "startDownload noWgetEnv ''a'' emptyState = Inl (NoValuesToSet, failedSpawnState)
   \<and> map status (downloads failedSpawnState) = [Downloading]
   \<and> activeProcesses failedSpawnState 1 = Some failedProc
   \<and> proc_pid failedProc = None
   \<and> map status (downloads (emitError failedProc ''spawn wget ENOENT'' failedSpawnState))
       = [Downloading]
   \<and> map error (downloads (emitError failedProc ''spawn wget ENOENT'' failedSpawnState)) = [None]"
proof -
  have a: "startDownload noWgetEnv ''a'' emptyState = Inl (NoValuesToSet, failedSpawnState)"
    by (simp add: start_defs resolver_defs example_defs noWgetEnv_def failedSpawnState_def
          failedProc_def)
  have b: "proc_pid failedProc = None"
    by (simp add: failedProc_def)
  then have c: "emitError failedProc ''spawn wget ENOENT'' failedSpawnState = failedSpawnState"
    by (simp add: emitError_def listening_def)
  have d: "map status (downloads failedSpawnState) = [Downloading]"
    "map error (downloads failedSpawnState) = [None]"
    "activeProcesses failedSpawnState 1 = Some failedProc"
    by (simp_all add: failedSpawnState_def rowA_def)
  from a b d show ?thesis unfolding c by simp
qed


section \<open>Cancelling\<close>

lemma in_updateWhere:
  "r \<in> set (updateWhere P f rows) \<Longrightarrow> P r \<Longrightarrow> (\<And>d. P (f d) = P d) \<Longrightarrow> \<exists>d. r = f d"
  by (induction rows) (auto simp: updateWhere_def split: if_splits)

lemma cancel_active: "activeProcesses (cancelDownload i s) i = None"
  by (simp add: cancelDownload_def Let_def split: option.splits)

lemma cancel_effects: "effects (cancelDownload i s)
       = effects s @ (case activeProcesses s i of None \<Rightarrow> [] | Some p \<Rightarrow> [Kill p SIGTERM])"
  by (simp add: cancelDownload_def Let_def split: option.splits)


lemma cancel_rows: "downloads (cancelDownload i s) = updateWhere (\<lambda>d. id_col d = i)
   (\<lambda>d. d\<lparr>status := Failed, error := Some ''Cancelled by user'', pid := None\<rparr>) (downloads s)"
  by (simp add: cancelDownload_def Let_def split: option.splits)

lemma cancel_all: "\<forall>r\<in>set (downloads (cancelDownload i s)). id_col r = i \<longrightarrow>
         status r = Failed \<and> error r = Some ''Cancelled by user'' \<and> pid r = None"
proof (intro ballI impI)
  fix r assume "r \<in> set (downloads (cancelDownload i s))" "id_col r = i"
  then obtain d where "r = d\<lparr>status := Failed, error := Some ''Cancelled by user'', pid := None\<rparr>"
    using in_updateWhere [of r "\<lambda>d. id_col d = i"
        "\<lambda>d. d\<lparr>status := Failed, error := Some ''Cancelled by user'', pid := None\<rparr>" "downloads s"]
    by (auto simp: cancel_rows)
  then show "status r = Failed \<and> error r = Some ''Cancelled by user'' \<and> pid r = None"
    by simp
qed

lemma cancel_get: "getDownloadById i s = Some d \<Longrightarrow> getDownloadById i (cancelDownload i s)
    = Some (d\<lparr>status := Failed, error := Some ''Cancelled by user'', pid := None\<rparr>)"
  by (simp add: getDownloadById_find cancel_rows find_updateWhere_id)

lemma cancel_again: "activeProcesses t i = None \<Longrightarrow> cancelDownload i t = t\<lparr>downloads :=
             updateWhere (\<lambda>d. id_col d = i)
    (\<lambda>d. d\<lparr>status := Failed, error := Some ''Cancelled by user'', pid := None\<rparr>) (downloads t)\<rparr>"
  by (simp add: cancelDownload_def)

lemma cancel_idem: "cancelDownload i (cancelDownload i s) = cancelDownload i s"
proof -
  have "cancelDownload i (cancelDownload i s)
        = (cancelDownload i s)\<lparr>downloads := updateWhere (\<lambda>d. id_col d = i)
    (\<lambda>d. d\<lparr>status := Failed, error := Some ''Cancelled by user'', pid := None\<rparr>) (downloads (cancelDownload i s))\<rparr>"
    by (rule cancel_again [OF cancel_active])
  also have "updateWhere (\<lambda>d. id_col d = i)
    (\<lambda>d. d\<lparr>status := Failed, error := Some ''Cancelled by user'', pid := None\<rparr>) (downloads (cancelDownload i s)) = downloads (cancelDownload i s)"
    by (simp add: cancel_rows updateWhere_idem)
  finally show ?thesis by simp
qed



text \<open>
  C6.  \<^verbatim>\<open>cancelDownload\<close> has no failing branch (it is a total function on the
  state).  It sends SIGTERM to a registered process and removes the handle, marks
  every row of that id \<^verbatim>\<open>failed\<close> with error \<^verbatim>\<open>Cancelled by user\<close> and no pid, and
  a second call changes nothing.
\<close>

theorem cancelDownload_idempotent:
  "cancelDownload i (cancelDownload i s) = cancelDownload i s
   \<and> activeProcesses (cancelDownload i s) i = None
   \<and> effects (cancelDownload i s)
       = effects s @ (case activeProcesses s i of None \<Rightarrow> [] | Some p \<Rightarrow> [Kill p SIGTERM])
   \<and> (\<forall>r\<in>set (downloads (cancelDownload i s)). id_col r = i \<longrightarrow>
         status r = Failed \<and> error r = Some ''Cancelled by user'' \<and> pid r = None)
   \<and> (getDownloadById i s = Some d \<longrightarrow>
         getDownloadById i (cancelDownload i s)
           = Some (d\<lparr>status := Failed, error := Some ''Cancelled by user'', pid := None\<rparr>))"
proof (intro conjI impI)
  show "cancelDownload i (cancelDownload i s) = cancelDownload i s" by (rule cancel_idem)
  show "activeProcesses (cancelDownload i s) i = None" by (rule cancel_active)
  show "effects (cancelDownload i s)
       = effects s @ (case activeProcesses s i of None \<Rightarrow> [] | Some p \<Rightarrow> [Kill p SIGTERM])"
    by (rule cancel_effects)
  show "\<forall>r\<in>set (downloads (cancelDownload i s)). id_col r = i \<longrightarrow>
         status r = Failed \<and> error r = Some ''Cancelled by user'' \<and> pid r = None"
    by (rule cancel_all)
next
  assume "getDownloadById i s = Some d"
  then show "getDownloadById i (cancelDownload i s)
           = Some (d\<lparr>status := Failed, error := Some ''Cancelled by user'', pid := None\<rparr>)"
    by (rule cancel_get)
qed

theorem cancelDownload_idempotent_witness:
  "getDownloadById 1 pausedState = Some (rowA Paused)
   \<and> getDownloadById 1 (cancelDownload 1 pausedState)
       = Some ((rowA Paused)\<lparr>status := Failed, error := Some ''Cancelled by user'', pid := None\<rparr>)
   \<and> cancelDownload 1 (cancelDownload 1 pausedState) = cancelDownload 1 pausedState
   \<and> effects (cancelDownload 1 pausedState)
       = effects pausedState @ [Kill (exampleProc 1 ''a'' 1000000512) SIGTERM]
   \<and> map status (downloads (cancelDownload 1 pausedState)) = [Failed]"
proof -
  have h: "getDownloadById 1 pausedState = Some (rowA Paused)"
    by (simp add: getDownloadById_find pausedState_def rowA_def)
  have r: "(rowA Paused)\<lparr>status := Failed, error := Some ''Cancelled by user'', pid := None\<rparr>
             \<in> set (downloads (cancelDownload 1 pausedState))"
    by (simp add: cancel_rows updateWhere_def pausedState_def rowA_def)
  have i: "id_col ((rowA Paused)\<lparr>status := Failed, error := Some ''Cancelled by user'', pid := None\<rparr>) = 1"
    by (simp add: rowA_def)
  have a: "activeProcesses pausedState 1 = Some (exampleProc 1 ''a'' 1000000512)"
    by (simp add: pausedState_def)
  note c = cancelDownload_idempotent [of 1 pausedState "rowA Paused"]
  from c h have g: "getDownloadById 1 (cancelDownload 1 pausedState)
       = Some ((rowA Paused)\<lparr>status := Failed, error := Some ''Cancelled by user'', pid := None\<rparr>)"
    by blast
  from c r i
  have f: "status ((rowA Paused)\<lparr>status := Failed, error := Some ''Cancelled by user'', pid := None\<rparr>)
             = Failed"
    by blast
  from c a have e: "effects (cancelDownload 1 pausedState)
       = effects pausedState @ [Kill (exampleProc 1 ''a'' 1000000512) SIGTERM]"
    by simp
  from c have d: "cancelDownload 1 (cancelDownload 1 pausedState) = cancelDownload 1 pausedState"
    by blast
  have m: "map status (downloads (cancelDownload 1 pausedState)) = [Failed]"
    by (simp add: cancel_rows updateWhere_def pausedState_def rowA_def)
  from h g d e m show ?thesis by simp
qed

section \<open>Starting a download\<close>

lemma resolveMeta4Url_errors:
  "resolveMeta4Url e u = Inl err \<Longrightarrow>
     (\<exists>m. err = Rejected m) \<or> (\<exists>m. err = FailedToFetchMeta4 m) \<or> err = TypeError"
  by (auto simp: resolveMeta4Url_def selectUrl_def Let_def
           split: sum.splits if_splits urlField.splits list.splits)

lemma after_spawn_error:
  assumes "(case spawnWget e i u out t info s of Inl failure \<Rightarrow> Inl failure | Inr s2 \<Rightarrow> Inr (d, s2))
             = Inl (err, s1)"
  shows "err = NoValuesToSet"
proof -
  from assms have "spawnWget e i u out t info s = Inl (err, s1)"
    by (simp add: after_spawn_Inl)
  from spawnWget_Inl [OF this] show ?thesis by simp
qed

lemma after_spawn_error_eq:
  assumes "y = (case spawnWget e i u out t info s of Inl failure \<Rightarrow> Inl failure | Inr s2 \<Rightarrow> Inr (d, s2))"
    and "y = Inl (err, s1)"
  shows "err = NoValuesToSet"
proof -
  from assms have "spawnWget e i u out t info s = Inl (err, s1)"
    by (cases "spawnWget e i u out t info s") auto
  from spawnWget_Inl [OF this] show ?thesis by simp
qed

text \<open>A start that fails before the upsert leaves the state as it was.\<close>

lemma startDownload_resolve_fails:
  assumes "getBookById e b = Some book" "book_url book = Some u" "u \<noteq> []"
    "getDiskSpace e (getSetting e DownloadFolder s) = Inr space"
    "hasEnoughSpace (available space) (fl ((case book_size book of None \<Rightarrow> 0 | Some k \<Rightarrow> k) * 1024))"
    "resolveMeta4Url e u = Inl err"
  shows "startDownload e b s = Inl (err, s)"
  using assms by (simp add: startDownload_def truthy_def Let_def)

lemma startDownload_no_space:
  assumes "getBookById e b = Some book" "book_url book = Some u" "u \<noteq> []"
    "getDiskSpace e (getSetting e DownloadFolder s) = Inr space"
    "\<not> hasEnoughSpace (available space) (fl ((case book_size book of None \<Rightarrow> 0 | Some k \<Rightarrow> k) * 1024))"
  shows "startDownload e b s =
     Inl (NotEnoughDiskSpace (fl ((case book_size book of None \<Rightarrow> 0 | Some k \<Rightarrow> k) * 1024))
            (available space), s)"
  using assms by (simp add: startDownload_def truthy_def Let_def)

lemma startDownload_downloading_fails:
  assumes "getDownloadByBookId b s = Some ex" "status ex = Downloading"
  shows "\<exists>err. startDownload e b s = Inl (err, s)"
proof (cases "getBookById e b")
  case None
  then show ?thesis by (simp add: startDownload_def)
next
  case (Some book)
  note book = this
  show ?thesis
  proof (cases "truthy (book_url book)")
    case False
    with book show ?thesis by (simp add: startDownload_def)
  next
    case True
    then obtain u where u: "book_url book = Some u" "u \<noteq> []"
      by (auto simp: truthy_def split: option.splits)
    show ?thesis
    proof (cases "getDiskSpace e (getSetting e DownloadFolder s)")
      case (Inl err)
      with book u show ?thesis by (simp add: startDownload_def truthy_def Let_def)
    next
      case (Inr space)
      note space = this
      show ?thesis
      proof (cases "hasEnoughSpace (available space)
                      (fl ((case book_size book of None \<Rightarrow> 0 | Some k \<Rightarrow> k) * 1024))")
        case False
        from startDownload_no_space [OF book u space False] show ?thesis by blast
      next
        case True
        note enough = this
        show ?thesis
        proof (cases "resolveMeta4Url e u")
          case (Inl err)
          from startDownload_resolve_fails [OF book u space enough Inl] show ?thesis by blast
        next
          case (Inr p)
          then obtain durl fname where res: "resolveMeta4Url e u = Inr (durl, fname)"
            by (cases p) auto
          from startDownload_busy [OF book u space enough res assms] show ?thesis by blast
        qed
      qed
    qed
  qed
qed

lemma example_checks:
  "getBookById (exampleEnv n) ''a'' = Some bookA"
  "getBookById (exampleEnv n) ''b'' = Some bookB"
  "book_url bookA = Some ''http://cat.example/wiki.meta4''"
  "book_url bookB = Some ''http://cat.example/wiki_b.meta4''"
  "getDiskSpace (exampleEnv n) p = Inr (exampleSpace n)"
  "resolveMeta4Url (exampleEnv n) u = Inr (''http://m1.example/wiki.zim'', ''wiki.zim'')"
  "available (exampleSpace n) = n"
  by (simp_all add: getBookById_def selectWhere_def getDiskSpace_def resolver_defs example_defs)

lemma getDownloadById_id: "getDownloadById i s = Some d \<Longrightarrow> id_col d = i"
  by (auto simp: getDownloadById_find find_Some_iff)

lemma find_other:
  "find P xs = Some d \<Longrightarrow> Q d \<Longrightarrow> find Q xs \<noteq> None"
  by (induction xs) (auto split: if_splits)

lemma bookId_row_found:
  "getDownloadById i s = Some d \<Longrightarrow> bookId d = Some b \<Longrightarrow> getDownloadByBookId b s \<noteq> None"
  unfolding getDownloadById_find getDownloadByBookId_find by (rule find_other)

lemma resumeDownload_live:
  assumes "getDownloadById i s = Some d" "liveHandle i s = Some p"
  shows "resumeDownload e i s =
           Inr (s\<lparr>effects := effects s @ [Kill p SIGCONT],
                  downloads := updateWhere (\<lambda>d. id_col d = i) (\<lambda>d. d\<lparr>status := Downloading\<rparr>)
                                 (downloads s)\<rparr>)"
  using assms by (simp add: resumeDownload_def)

lemma pauseDownload_live:
  assumes "liveHandle i s = Some p"
  shows "pauseDownload i s =
           s\<lparr>effects := effects s @ [Kill p SIGSTOP],
             downloads := updateWhere (\<lambda>d. id_col d = i) (\<lambda>d. d\<lparr>status := Paused\<rparr>) (downloads s)\<rparr>"
  using assms by (simp add: pauseDownload_def)

lemma resumeDownload_fallback:
  assumes "getDownloadById i s = Some d" "liveHandle i s = None" "bookId d = Some b" "b \<noteq> []"
  shows "resumeDownload e i s =
           (case startDownload e b s of Inl err \<Rightarrow> Inl err | Inr (r, t) \<Rightarrow> Inr t)"
  using assms by (simp add: resumeDownload_def truthy_def)

lemma startDownload_first_row_status:
  assumes ok: "startDownload e b s = Inr (r, s')" and ex: "getDownloadByBookId b s = Some ex"
  shows "map_option status (getDownloadById (id_col ex) s') = Some Downloading"
proof -
  from ok obtain book u space durl fname where h:
    "getBookById e b = Some book" "book_url book = Some u" "u \<noteq> []"
    "getDiskSpace e (getSetting e DownloadFolder s) = Inr space"
    "hasEnoughSpace (available space) (fl ((case book_size book of None \<Rightarrow> 0 | Some k \<Rightarrow> k) * 1024))"
    "resolveMeta4Url e u = Inr (durl, fname)"
    by (rule startDownload_InrE)
  have nd: "status ex \<noteq> Downloading"
  proof
    assume "status ex = Downloading"
    from startDownload_busy [OF h ex this] ok show False by simp
  qed
  from startDownload_existing [OF h ex nd] ok obtain d0 s1 where
    d0: "getDownloadById (id_col ex) s = Some d0"
    and sp: "spawnWget e (id_col ex) durl
               (pathJoin e (getSetting e DownloadFolder s) fname)
               (fl ((case book_size book of None \<Rightarrow> 0 | Some k \<Rightarrow> k) * 1024))
               \<lparr>bi_bookId = book_id book, bi_catalogDate = book_date book, bi_fileName = fname\<rparr> s1
             = Inr s'"
    and s1: "s1 = s\<lparr>downloads :=
                   updateWhere (\<lambda>d. id_col d = id_col ex)
                     (\<lambda>d. d\<lparr>status := Downloading, startedAt := Some (now e), error := None\<rparr>)
                     (downloads s)\<rparr>"
    by (auto simp: after_spawn_Inr after_spawn_Inr_sym)
  have "getDownloadById (id_col ex) s1
        = Some (d0\<lparr>status := Downloading, startedAt := Some (now e), error := None\<rparr>)"
    using d0 by (simp add: s1 getDownloadById_find find_updateWhere_id)
  then show ?thesis
    by (simp add: spawnWget_get [OF sp])
qed


subsection \<open>Rows and destination paths\<close>

text \<open>
  C5, as the code has it.  The table has no uniqueness constraint on \<^verbatim>\<open>filePath\<close> and
  \<^verbatim>\<open>startDownload\<close> never compares paths.  A successful start for a book that has
  no row appends exactly one row, for that book, whose path is the download folder
  joined with the file name of the book's metadata document, whatever paths are
  stored already; a successful start for a book that has a row adds no row and
  changes no stored path or book.
\<close>

theorem startDownload_rows:
  "startDownload e b s = Inr (r, s') \<longrightarrow>
     (getDownloadByBookId b s = None \<longrightarrow>
        map bookId (downloads s') = map bookId (downloads s) @ [Some b]
        \<and> (\<exists>book u durl fname.
              getBookById e b = Some book \<and> book_url book = Some u
              \<and> resolveMeta4Url e u = Inr (durl, fname)
              \<and> map filePath (downloads s')
                  = map filePath (downloads s) @ [Some (pathJoin e (getSetting e DownloadFolder s) fname)]))
     \<and> (getDownloadByBookId b s \<noteq> None \<longrightarrow>
          map bookId (downloads s') = map bookId (downloads s)
          \<and> map filePath (downloads s') = map filePath (downloads s))"
proof (intro impI)
  assume ok: "startDownload e b s = Inr (r, s')"
  from ok obtain book u space durl fname where h:
    "getBookById e b = Some book" "book_url book = Some u" "u \<noteq> []"
    "getDiskSpace e (getSetting e DownloadFolder s) = Inr space"
    "hasEnoughSpace (available space) (fl ((case book_size book of None \<Rightarrow> 0 | Some k \<Rightarrow> k) * 1024))"
    "resolveMeta4Url e u = Inr (durl, fname)"
    by (rule startDownload_InrE)
  note cb = startDownload_column [OF ok, of bookId]
  note cf = startDownload_column [OF ok, of filePath]
  have new: "bookId r = Some b \<and> filePath r = Some (pathJoin e (getSetting e DownloadFolder s) fname)"
    if "getDownloadByBookId b s = None"
    using startDownload_new [OF h that] ok by (auto simp: after_spawn_Inr after_spawn_Inr_sym)
  show "(getDownloadByBookId b s = None \<longrightarrow>
        map bookId (downloads s') = map bookId (downloads s) @ [Some b]
        \<and> (\<exists>book u durl fname.
              getBookById e b = Some book \<and> book_url book = Some u
              \<and> resolveMeta4Url e u = Inr (durl, fname)
              \<and> map filePath (downloads s')
                  = map filePath (downloads s) @ [Some (pathJoin e (getSetting e DownloadFolder s) fname)]))
     \<and> (getDownloadByBookId b s \<noteq> None \<longrightarrow>
          map bookId (downloads s') = map bookId (downloads s)
          \<and> map filePath (downloads s') = map filePath (downloads s))"
  proof (intro conjI impI)
    assume n: "getDownloadByBookId b s = None"
    with cb new show "map bookId (downloads s') = map bookId (downloads s) @ [Some b]"
      by simp
    from n cf new
    have "map filePath (downloads s')
            = map filePath (downloads s) @ [Some (pathJoin e (getSetting e DownloadFolder s) fname)]"
      by simp
    with h(1,2,6) show "\<exists>book u durl fname.
              getBookById e b = Some book \<and> book_url book = Some u
              \<and> resolveMeta4Url e u = Inr (durl, fname)
              \<and> map filePath (downloads s')
                  = map filePath (downloads s) @ [Some (pathJoin e (getSetting e DownloadFolder s) fname)]"
      by blast
  next
    assume "getDownloadByBookId b s \<noteq> None"
    with cb show "map bookId (downloads s') = map bookId (downloads s)" by simp
  next
    assume "getDownloadByBookId b s \<noteq> None"
    with cf show "map filePath (downloads s') = map filePath (downloads s)" by simp
  qed
qed

theorem startDownload_rows_witness:
  "\<not> isl (startDownload (exampleEnv 3000000000) ''b'' runningState)
   \<and> getDownloadByBookId ''b'' runningState = None
   \<and> map bookId (downloads (snd (projr (startDownload (exampleEnv 3000000000) ''b'' runningState))))
       = map bookId (downloads runningState) @ [Some ''b'']
   \<and> \<not> isl (startDownload (exampleEnv 3000000000) ''a'' pausedState)
   \<and> getDownloadByBookId ''a'' pausedState \<noteq> None
   \<and> map filePath (downloads (snd (projr (startDownload (exampleEnv 3000000000) ''a'' pausedState))))
       = map filePath (downloads pausedState)"
proof -
  have ok1: "\<not> isl (startDownload (exampleEnv 3000000000) ''b'' runningState)"
    by (simp add: start_defs resolver_defs example_defs)
  then obtain r1 s1 where r1: "startDownload (exampleEnv 3000000000) ''b'' runningState = Inr (r1, s1)"
    by (cases "startDownload (exampleEnv 3000000000) ''b'' runningState") auto
  have n1: "getDownloadByBookId ''b'' runningState = None"
    by (simp add: getDownloadByBookId_find runningState_def rowA_def)
  have ok2: "\<not> isl (startDownload (exampleEnv 3000000000) ''a'' pausedState)"
    by (simp add: start_defs resolver_defs example_defs)
  then obtain r2 s2 where r2: "startDownload (exampleEnv 3000000000) ''a'' pausedState = Inr (r2, s2)"
    by (cases "startDownload (exampleEnv 3000000000) ''a'' pausedState") auto
  have n2: "getDownloadByBookId ''a'' pausedState \<noteq> None"
    by (simp add: getDownloadByBookId_find pausedState_def rowA_def)
  from startDownload_rows [of "exampleEnv 3000000000" "''b''" runningState r1 s1] r1 n1
  have a: "map bookId (downloads s1) = map bookId (downloads runningState) @ [Some ''b'']"
    by blast
  from startDownload_rows [of "exampleEnv 3000000000" "''a''" pausedState r2 s2] r2 n2
  have b: "map filePath (downloads s2) = map filePath (downloads pausedState)"
    by blast
  from ok1 n1 ok2 n2 a b show ?thesis
    by (simp add: r1 r2)
qed



text \<open>
  C5 as stated fails: two books whose metadata documents declare the same file name
  are downloaded at the same time to the same path.
\<close>

theorem filePath_shared_counterexample:
  "\<not> isl (startDownload (exampleEnv 3000000000) ''b'' runningState)
   \<and> map bookId (downloads (snd (projr (startDownload (exampleEnv 3000000000) ''b'' runningState))))
       = [Some ''a'', Some ''b'']
   \<and> map filePath (downloads (snd (projr (startDownload (exampleEnv 3000000000) ''b'' runningState))))
       = [Some ''/home/u/zim-files/wiki.zim'', Some ''/home/u/zim-files/wiki.zim'']
   \<and> map status (downloads (snd (projr (startDownload (exampleEnv 3000000000) ''b'' runningState))))
       = [Downloading, Downloading]"
  by (simp add: start_defs resolver_defs example_defs)


subsection \<open>The already-active check\<close>

text \<open>
  C2, as the code has it.  \<^verbatim>\<open>startDownload\<close> fails whenever the first row stored for
  the book is \<^verbatim>\<open>downloading\<close>, and it then leaves the state as it was: nothing is
  spawned.  When the checks before the upsert pass (book found, URL present, enough
  space, metadata resolved), it rejects with the already-in-progress error exactly
  when that row is \<^verbatim>\<open>downloading\<close>; the table of handles is not consulted, so for any
  other status, \<^verbatim>\<open>paused\<close> with a registered handle included, it goes on to spawn a
  process, and when the spawn yields a pid it succeeds, with the process spawned and
  registered under the row's id.
\<close>

theorem start_rejects_iff_downloading:
  "(map_option status (getDownloadByBookId b s) = Some Downloading \<longrightarrow>
      (\<exists>err. startDownload e b s = Inl (err, s)))
   \<and> (getBookById e b = Some book \<and> book_url book = Some u \<and> u \<noteq> []
       \<and> getDiskSpace e (getSetting e DownloadFolder s) = Inr space
       \<and> hasEnoughSpace (available space) (fl ((case book_size book of None \<Rightarrow> 0 | Some k \<Rightarrow> k) * 1024))
       \<and> resolveMeta4Url e u = Inr (durl, fname) \<longrightarrow>
         (startDownload e b s = Inl (AlreadyInProgress b, s)
            \<longleftrightarrow> map_option status (getDownloadByBookId b s) = Some Downloading)
         \<and> (\<forall>t. startDownload e b s = Inl (AlreadyInProgress b, t) \<longrightarrow> t = s)
         \<and> (map_option status (getDownloadByBookId b s) \<noteq> Some Downloading
              \<and> spawnPid e = Some n \<longrightarrow>
              (\<exists>r s' p. startDownload e b s = Inr (r, s')
                 \<and> effects s' = effects s @
                     [Spawn ''wget''
                        [''-c'', ''--progress=dot:mega'', ''-O'',
                         pathJoin e (getSetting e DownloadFolder s) fname, durl] p]
                 \<and> activeProcesses s' (id_col r) = Some p)))"
proof (intro conjI impI)
  assume "map_option status (getDownloadByBookId b s) = Some Downloading"
  then obtain ex where "getDownloadByBookId b s = Some ex" "status ex = Downloading"
    by auto
  then show "\<exists>err. startDownload e b s = Inl (err, s)" by (rule startDownload_downloading_fails)
next
  assume a: "getBookById e b = Some book \<and> book_url book = Some u \<and> u \<noteq> []
       \<and> getDiskSpace e (getSetting e DownloadFolder s) = Inr space
       \<and> hasEnoughSpace (available space) (fl ((case book_size book of None \<Rightarrow> 0 | Some k \<Rightarrow> k) * 1024))
       \<and> resolveMeta4Url e u = Inr (durl, fname)"
  then have h:
    "getBookById e b = Some book" "book_url book = Some u" "u \<noteq> []"
    "getDiskSpace e (getSetting e DownloadFolder s) = Inr space"
    "hasEnoughSpace (available space) (fl ((case book_size book of None \<Rightarrow> 0 | Some k \<Rightarrow> k) * 1024))"
    "resolveMeta4Url e u = Inr (durl, fname)"
    by simp_all
  have notbusy: "startDownload e b s \<noteq> Inl (AlreadyInProgress b, t)"
    if n: "map_option status (getDownloadByBookId b s) \<noteq> Some Downloading" for t
  proof
    assume l: "startDownload e b s = Inl (AlreadyInProgress b, t)"
    show False
    proof (cases "getDownloadByBookId b s")
      case None
      from after_spawn_error_eq [OF startDownload_new [OF h None] l] show False
        by simp
    next
      case (Some ex)
      with n have "status ex \<noteq> Downloading" by simp
      from startDownload_existing [OF h Some this] obtain d0 where
        "startDownload e b s =
          (case spawnWget e (id_col ex) durl
               (pathJoin e (getSetting e DownloadFolder s) fname)
               (fl ((case book_size book of None \<Rightarrow> 0 | Some k \<Rightarrow> k) * 1024))
               \<lparr>bi_bookId = book_id book, bi_catalogDate = book_date book, bi_fileName = fname\<rparr>
               (s\<lparr>downloads :=
                    updateWhere (\<lambda>d. id_col d = id_col ex)
                      (\<lambda>d. d\<lparr>status := Downloading, startedAt := Some (now e), error := None\<rparr>)
                      (downloads s)\<rparr>) of
             Inl failure \<Rightarrow> Inl failure
           | Inr s2 \<Rightarrow> Inr (d0\<lparr>status := Downloading, startedAt := Some (now e), error := None\<rparr>, s2))"
        by blast
      from after_spawn_error_eq [OF this l] show False
        by simp
    qed
  qed
  have other: "\<exists>r s' p. startDownload e b s = Inr (r, s')
                 \<and> effects s' = effects s @
                     [Spawn ''wget''
                        [''-c'', ''--progress=dot:mega'', ''-O'',
                         pathJoin e (getSetting e DownloadFolder s) fname, durl] p]
                 \<and> activeProcesses s' (id_col r) = Some p"
    if n: "map_option status (getDownloadByBookId b s) \<noteq> Some Downloading"
      and pid: "spawnPid e = Some n"
  proof (cases "getDownloadByBookId b s")
    case None
    from startDownload_new [OF h None] show ?thesis
      by (simp add: spawnWget_ok [OF pid])
  next
    case (Some ex)
    with n have "status ex \<noteq> Downloading" by simp
    from startDownload_existing [OF h Some this] obtain d0 where
      d0: "getDownloadById (id_col ex) s = Some d0"
      and eq: "startDownload e b s =
       (case spawnWget e (id_col ex) durl
               (pathJoin e (getSetting e DownloadFolder s) fname)
               (fl ((case book_size book of None \<Rightarrow> 0 | Some k \<Rightarrow> k) * 1024))
               \<lparr>bi_bookId = book_id book, bi_catalogDate = book_date book, bi_fileName = fname\<rparr>
               (s\<lparr>downloads :=
                    updateWhere (\<lambda>d. id_col d = id_col ex)
                      (\<lambda>d. d\<lparr>status := Downloading, startedAt := Some (now e), error := None\<rparr>)
                      (downloads s)\<rparr>) of
          Inl failure \<Rightarrow> Inl failure
        | Inr s2 \<Rightarrow> Inr (d0\<lparr>status := Downloading, startedAt := Some (now e), error := None\<rparr>, s2))"
      by blast
    from d0 have "id_col d0 = id_col ex"
      by (auto simp: getDownloadById_find dest: find_Some_iff [THEN iffD1])
    with eq show ?thesis
      by (simp add: spawnWget_ok [OF pid])
  qed
  show "(startDownload e b s = Inl (AlreadyInProgress b, s))
          = (map_option status (getDownloadByBookId b s) = Some Downloading)"
  proof
    assume l: "startDownload e b s = Inl (AlreadyInProgress b, s)"
    show "map_option status (getDownloadByBookId b s) = Some Downloading"
    proof (rule ccontr)
      assume "map_option status (getDownloadByBookId b s) \<noteq> Some Downloading"
      from notbusy [OF this, of s] l show False by simp
    qed
  next
    assume "map_option status (getDownloadByBookId b s) = Some Downloading"
    then obtain ex where "getDownloadByBookId b s = Some ex" "status ex = Downloading"
      by auto
    from startDownload_busy [OF h this] show "startDownload e b s = Inl (AlreadyInProgress b, s)" .
  qed
  show "\<forall>t. startDownload e b s = Inl (AlreadyInProgress b, t) \<longrightarrow> t = s"
  proof (intro allI impI)
    fix t
    assume l: "startDownload e b s = Inl (AlreadyInProgress b, t)"
    have "map_option status (getDownloadByBookId b s) = Some Downloading"
    proof (rule ccontr)
      assume "map_option status (getDownloadByBookId b s) \<noteq> Some Downloading"
      from notbusy [OF this, of t] l show False by simp
    qed
    then obtain ex where "getDownloadByBookId b s = Some ex" "status ex = Downloading"
      by auto
    from startDownload_busy [OF h this] l show "t = s" by simp
  qed
  show "\<exists>r s' p. startDownload e b s = Inr (r, s')
                 \<and> effects s' = effects s @
                     [Spawn ''wget''
                        [''-c'', ''--progress=dot:mega'', ''-O'',
                         pathJoin e (getSetting e DownloadFolder s) fname, durl] p]
                 \<and> activeProcesses s' (id_col r) = Some p"
    if "map_option status (getDownloadByBookId b s) \<noteq> Some Downloading \<and> spawnPid e = Some n"
    using other that by blast
qed

theorem start_rejects_iff_downloading_witness:
  "map_option status (getDownloadByBookId ''a'' runningState) = Some Downloading
   \<and> startDownload (exampleEnv 3000000000) ''a'' runningState
       = Inl (AlreadyInProgress ''a'', runningState)
   \<and> map_option status (getDownloadByBookId ''a'' pausedState) \<noteq> Some Downloading
   \<and> spawnPid (exampleEnv 3000000000) = Some 4242
   \<and> \<not> isl (startDownload (exampleEnv 3000000000) ''a'' pausedState)"
proof -
  have d: "map_option status (getDownloadByBookId ''a'' runningState) = Some Downloading"
    by (simp add: getDownloadByBookId_find runningState_def rowA_def)
  have p: "map_option status (getDownloadByBookId ''a'' pausedState) \<noteq> Some Downloading"
    by (simp add: getDownloadByBookId_find pausedState_def rowA_def)
  have u: "''http://cat.example/wiki.meta4'' \<noteq> []"
    by simp
  have pid: "spawnPid (exampleEnv 3000000000) = Some 4242"
    by (simp add: exampleEnv_def)
  have enough: "hasEnoughSpace (available (exampleSpace 3000000000))
      (fl ((case book_size bookA of None \<Rightarrow> 0 | Some k \<Rightarrow> k) * 1024))"
    by (simp add: hasEnoughSpace_def exampleSpace_def bookA_def fl_exact)
  note r = start_rejects_iff_downloading
    [of "''a''" runningState "exampleEnv 3000000000" bookA "''http://cat.example/wiki.meta4''"
        "exampleSpace 3000000000" "''http://m1.example/wiki.zim''" "''wiki.zim''" 4242]
  note q = start_rejects_iff_downloading
    [of "''a''" pausedState "exampleEnv 3000000000" bookA "''http://cat.example/wiki.meta4''"
        "exampleSpace 3000000000" "''http://m1.example/wiki.zim''" "''wiki.zim''" 4242]
  from r d u enough example_checks
  have c2: "startDownload (exampleEnv 3000000000) ''a'' runningState
              = Inl (AlreadyInProgress ''a'', runningState)"
    by blast
  from q p u pid enough example_checks
  have "\<exists>r s'. startDownload (exampleEnv 3000000000) ''a'' pausedState = Inr (r, s')"
    by blast
  then have c3: "\<not> isl (startDownload (exampleEnv 3000000000) ''a'' pausedState)"
    by auto
  from d p pid c2 c3 show ?thesis by simp
qed


text \<open>
  C2 as stated fails: a download that is \<^verbatim>\<open>paused\<close> with its handle registered is
  started again, and a second process is spawned for it.
\<close>

theorem start_paused_counterexample:
  "map_option status (getDownloadByBookId ''a'' pausedState) = Some Paused
   \<and> liveHandle 1 pausedState = Some (exampleProc 1 ''a'' 1000000512)
   \<and> \<not> isl (startDownload ((exampleEnv 3000000000)\<lparr>spawnPid := Some 4243\<rparr>) ''a'' pausedState)
   \<and> effects (snd (projr (startDownload ((exampleEnv 3000000000)\<lparr>spawnPid := Some 4243\<rparr>) ''a''
                             pausedState)))
       = [exampleSpawn (exampleProc 1 ''a'' 1000000512),
          Kill (exampleProc 1 ''a'' 1000000512) SIGSTOP,
          exampleSpawn ((exampleProc 1 ''a'' 1000000512)\<lparr>proc_pid := Some 4243\<rparr>)]
   \<and> map status (downloads (snd (projr (startDownload
         ((exampleEnv 3000000000)\<lparr>spawnPid := Some 4243\<rparr>) ''a'' pausedState))))
       = [Downloading]"
  by (simp add: getDownloadByBookId_find liveHandle_def start_defs resolver_defs example_defs)



subsection \<open>Books of unknown size\<close>

text \<open>
  C10, as the code has it.  For a book whose size is null or 0 the required bytes
  are 0: once the book is found, has a URL and \<^verbatim>\<open>df\<close> answered, the disk-space
  error is raised exactly when less than 1073741824 bytes are free, and it then
  reports 0 required bytes and leaves the state as it was.  A row created by the start records \<^verbatim>\<open>totalBytes\<close> 0;
  a row that already exists for the book is reused and keeps its \<^verbatim>\<open>totalBytes\<close>.
\<close>

theorem unknown_size_admission:
  "getBookById e b = Some book \<and> truthy (book_url book)
     \<and> (book_size book = None \<or> book_size book = Some 0)
     \<and> getDiskSpace e (getSetting e DownloadFolder s) = Inr space \<longrightarrow>
       ((\<exists>req av t. startDownload e b s = Inl (NotEnoughDiskSpace req av, t))
          \<longleftrightarrow> available space < 1073741824)
       \<and> (available space < 1073741824 \<longrightarrow>
            startDownload e b s = Inl (NotEnoughDiskSpace 0 (available space), s))
       \<and> (startDownload e b s = Inr (r, s') \<and> getDownloadByBookId b s = None \<longrightarrow>
            totalBytes r = Some 0
            \<and> map totalBytes (downloads s') = map totalBytes (downloads s) @ [Some 0])
       \<and> (startDownload e b s = Inr (r, s') \<and> getDownloadByBookId b s \<noteq> None \<longrightarrow>
            map totalBytes (downloads s') = map totalBytes (downloads s))"
proof (intro impI)
  assume a: "getBookById e b = Some book \<and> truthy (book_url book)
     \<and> (book_size book = None \<or> book_size book = Some 0)
     \<and> getDiskSpace e (getSetting e DownloadFolder s) = Inr space"
  then obtain u where h:
    "getBookById e b = Some book" "book_url book = Some u" "u \<noteq> []"
    "getDiskSpace e (getSetting e DownloadFolder s) = Inr space"
    by (auto simp: truthy_def split: option.splits)
  from a have req: "fl ((case book_size book of None \<Rightarrow> 0 | Some k \<Rightarrow> k) * 1024) = 0"
    by (auto simp: fl_exact)
  have low: "startDownload e b s = Inl (NotEnoughDiskSpace 0 (available space), s)"
    if "available space < 1073741824"
  proof -
    from that have "\<not> hasEnoughSpace (available space)
        (fl ((case book_size book of None \<Rightarrow> 0 | Some k \<Rightarrow> k) * 1024))"
      by (simp add: req hasEnoughSpace_def fl_exact)
    from startDownload_no_space [OF h this] show ?thesis by (simp add: req)
  qed
  have high: "startDownload e b s \<noteq> Inl (NotEnoughDiskSpace rq av, t)"
    if "\<not> available space < 1073741824" for rq av t
  proof -
    from that have enough: "hasEnoughSpace (available space)
        (fl ((case book_size book of None \<Rightarrow> 0 | Some k \<Rightarrow> k) * 1024))"
      by (simp add: req hasEnoughSpace_def fl_exact)
    show ?thesis
    proof (cases "resolveMeta4Url e u")
      case (Inl err)
      from startDownload_resolve_fails [OF h enough Inl] resolveMeta4Url_errors [OF Inl]
      show ?thesis by auto
    next
      case (Inr p)
      then obtain durl fname where res: "resolveMeta4Url e u = Inr (durl, fname)"
        by (cases p) auto
      show ?thesis
      proof (cases "getDownloadByBookId b s")
        case None
        show ?thesis
        proof
          assume "startDownload e b s = Inl (NotEnoughDiskSpace rq av, t)"
          from after_spawn_error_eq [OF startDownload_new [OF h enough res None] this]
          show False by simp
        qed
      next
        case (Some ex)
        show ?thesis
        proof (cases "status ex = Downloading")
          case True
          from startDownload_busy [OF h enough res Some True] show ?thesis by simp
        next
          case False
          show ?thesis
          proof
            assume l: "startDownload e b s = Inl (NotEnoughDiskSpace rq av, t)"
            from startDownload_existing [OF h enough res Some False] obtain d0 where
              "startDownload e b s =
                (case spawnWget e (id_col ex) durl
                     (pathJoin e (getSetting e DownloadFolder s) fname)
                     (fl ((case book_size book of None \<Rightarrow> 0 | Some k \<Rightarrow> k) * 1024))
                     \<lparr>bi_bookId = book_id book, bi_catalogDate = book_date book, bi_fileName = fname\<rparr>
                     (s\<lparr>downloads :=
                          updateWhere (\<lambda>d. id_col d = id_col ex)
                            (\<lambda>d. d\<lparr>status := Downloading, startedAt := Some (now e), error := None\<rparr>)
                            (downloads s)\<rparr>) of
                   Inl failure \<Rightarrow> Inl failure
                 | Inr s2 \<Rightarrow> Inr (d0\<lparr>status := Downloading, startedAt := Some (now e), error := None\<rparr>, s2))"
              by blast
            from after_spawn_error_eq [OF this l] show False by simp
          qed
        qed
      qed
    qed
  qed
  have new: "totalBytes r = Some 0
            \<and> map totalBytes (downloads s') = map totalBytes (downloads s) @ [Some 0]"
    if ok: "startDownload e b s = Inr (r, s')" and n: "getDownloadByBookId b s = None"
  proof -
    from ok obtain book' u' space' durl fname where h':
      "getBookById e b = Some book'" "book_url book' = Some u'" "u' \<noteq> []"
      "getDiskSpace e (getSetting e DownloadFolder s) = Inr space'"
      "hasEnoughSpace (available space') (fl ((case book_size book' of None \<Rightarrow> 0 | Some k \<Rightarrow> k) * 1024))"
      "resolveMeta4Url e u' = Inr (durl, fname)"
      by (rule startDownload_InrE)
    from h'(1) h(1) have "book' = book" by simp
    with startDownload_new [OF h' n] ok req have t: "totalBytes r = Some 0"
      by (auto simp: after_spawn_Inr after_spawn_Inr_sym)
    from startDownload_column [OF ok, of totalBytes] n t show ?thesis by simp
  qed
  have old: "map totalBytes (downloads s') = map totalBytes (downloads s)"
    if ok: "startDownload e b s = Inr (r, s')" and n: "getDownloadByBookId b s \<noteq> None"
    using startDownload_column [OF ok, of totalBytes] n by simp
  show "((\<exists>req av t. startDownload e b s = Inl (NotEnoughDiskSpace req av, t))
          \<longleftrightarrow> available space < 1073741824)
       \<and> (available space < 1073741824 \<longrightarrow>
            startDownload e b s = Inl (NotEnoughDiskSpace 0 (available space), s))
       \<and> (startDownload e b s = Inr (r, s') \<and> getDownloadByBookId b s = None \<longrightarrow>
            totalBytes r = Some 0
            \<and> map totalBytes (downloads s') = map totalBytes (downloads s) @ [Some 0])
       \<and> (startDownload e b s = Inr (r, s') \<and> getDownloadByBookId b s \<noteq> None \<longrightarrow>
            map totalBytes (downloads s') = map totalBytes (downloads s))"
    using low high new old by blast
qed

theorem unknown_size_admission_witness:
  "getBookById (exampleEnv 1000000000) ''b'' = Some bookB
   \<and> truthy (book_url bookB) \<and> book_size bookB = None
   \<and> startDownload (exampleEnv 1000000000) ''b'' runningState
        = Inl (NotEnoughDiskSpace 0 1000000000, runningState)
   \<and> \<not> isl (startDownload (exampleEnv 1073741824) ''b'' runningState)
   \<and> getDownloadByBookId ''b'' runningState = None
   \<and> map totalBytes (downloads (snd (projr (startDownload (exampleEnv 1073741824) ''b'' runningState))))
        = map totalBytes (downloads runningState) @ [Some 0]
   \<and> \<not> isl (startDownload (exampleEnv 1073741824) ''b'' staleState)
   \<and> getDownloadByBookId ''b'' staleState \<noteq> None
   \<and> map totalBytes (downloads (snd (projr (startDownload (exampleEnv 1073741824) ''b'' staleState))))
        = map totalBytes (downloads staleState)"
proof -
  have t: "truthy (book_url bookB)" and z: "book_size bookB = None"
    by (simp_all add: truthy_def bookB_def)
  have lt: "available (exampleSpace 1000000000) < 1073741824"
    by (simp add: exampleSpace_def)
  have n1: "getDownloadByBookId ''b'' runningState = None"
    by (simp add: getDownloadByBookId_find runningState_def rowA_def)
  have n2: "getDownloadByBookId ''b'' staleState \<noteq> None"
    by (simp add: getDownloadByBookId_find staleState_def staleRow_def)
  have ok1: "\<not> isl (startDownload (exampleEnv 1073741824) ''b'' runningState)"
    by (simp add: start_defs resolver_defs example_defs)
  then obtain r1 s1 where r1: "startDownload (exampleEnv 1073741824) ''b'' runningState = Inr (r1, s1)"
    by (cases "startDownload (exampleEnv 1073741824) ''b'' runningState") auto
  have ok2: "\<not> isl (startDownload (exampleEnv 1073741824) ''b'' staleState)"
    by (simp add: start_defs resolver_defs example_defs staleState_def staleRow_def)
  then obtain r2 s2 where r2: "startDownload (exampleEnv 1073741824) ''b'' staleState = Inr (r2, s2)"
    by (cases "startDownload (exampleEnv 1073741824) ''b'' staleState") auto
  from unknown_size_admission
         [of "exampleEnv 1000000000" "''b''" bookB runningState "exampleSpace 1000000000"]
       example_checks t z lt
  have c1: "startDownload (exampleEnv 1000000000) ''b'' runningState
        = Inl (NotEnoughDiskSpace 0 1000000000, runningState)"
    by simp
  from unknown_size_admission
         [of "exampleEnv 1073741824" "''b''" bookB runningState "exampleSpace 1073741824" r1 s1]
       example_checks t z r1 n1
  have c2: "map totalBytes (downloads s1) = map totalBytes (downloads runningState) @ [Some 0]"
    by simp
  from unknown_size_admission
         [of "exampleEnv 1073741824" "''b''" bookB staleState "exampleSpace 1073741824" r2 s2]
       example_checks t z r2 n2
  have c3: "map totalBytes (downloads s2) = map totalBytes (downloads staleState)"
    by simp
  from example_checks t z c1 ok1 n1 c2 ok2 n2 c3 show ?thesis
    by (simp add: r1 r2)
qed



text \<open>
  C10 as stated fails in its last part: the row of a book of unknown size, created
  when the catalog still gave a size, keeps that total when the book is started
  again.
\<close>

theorem reused_row_totalBytes_counterexample:
  "getBookById (exampleEnv 3000000000) ''b'' = Some bookB
   \<and> book_size bookB = None
   \<and> \<not> isl (startDownload (exampleEnv 3000000000) ''b'' staleState)
   \<and> map bookId (downloads (snd (projr (startDownload (exampleEnv 3000000000) ''b'' staleState))))
       = [Some ''b'']
   \<and> map status (downloads (snd (projr (startDownload (exampleEnv 3000000000) ''b'' staleState))))
       = [Downloading]
   \<and> map totalBytes (downloads (snd (projr (startDownload (exampleEnv 3000000000) ''b'' staleState))))
       = [Some 2048000]"
  by (simp add: start_defs resolver_defs example_defs staleState_def staleRow_def)


section \<open>Pause and resume\<close>

text \<open>
  C7.  For an existing row: with a live handle \<^verbatim>\<open>resumeDownload\<close> sends SIGCONT and
  sets the status to \<^verbatim>\<open>downloading\<close>, changing nothing else in the row and adding
  no row; without a live handle and with a book id it is \<^verbatim>\<open>startDownload\<close> of that
  book, which on success leaves the ids and books of the rows as they are and sets
  the row to \<^verbatim>\<open>downloading\<close>; and pausing a download with a live handle, then
  resuming it, gives status \<^verbatim>\<open>paused\<close> with the handle kept, then \<^verbatim>\<open>downloading\<close>
  with the same rows.
\<close>

theorem resumeDownload_roundtrip:
  "(getDownloadById i s = Some d \<and> liveHandle i s = Some p \<longrightarrow>
      (\<exists>s'. resumeDownload e i s = Inr s'
         \<and> effects s' = effects s @ [Kill p SIGCONT]
         \<and> getDownloadById i s' = Some (d\<lparr>status := Downloading\<rparr>)
         \<and> map id_col (downloads s') = map id_col (downloads s)
         \<and> map bookId (downloads s') = map bookId (downloads s)
         \<and> activeProcesses s' = activeProcesses s))
   \<and> (getDownloadById i s = Some d \<and> liveHandle i s = None \<and> bookId d = Some b \<and> b \<noteq> [] \<longrightarrow>
        resumeDownload e i s = (case startDownload e b s of Inl err \<Rightarrow> Inl err | Inr (r, t) \<Rightarrow> Inr t)
        \<and> (resumeDownload e i s = Inr s' \<longrightarrow>
             map id_col (downloads s') = map id_col (downloads s)
             \<and> map bookId (downloads s') = map bookId (downloads s)
             \<and> (getDownloadByBookId b s = Some d \<longrightarrow>
                  map_option status (getDownloadById i s') = Some Downloading)))
   \<and> (getDownloadById i s = Some d \<and> liveHandle i s = Some p \<longrightarrow>
        getDownloadById i (pauseDownload i s) = Some (d\<lparr>status := Paused\<rparr>)
        \<and> liveHandle i (pauseDownload i s) = Some p
        \<and> (\<exists>s2. resumeDownload e i (pauseDownload i s) = Inr s2
              \<and> getDownloadById i s2 = Some (d\<lparr>status := Downloading\<rparr>)
              \<and> map id_col (downloads s2) = map id_col (downloads s)
              \<and> map bookId (downloads s2) = map bookId (downloads s)))"
proof -
  have live: "\<exists>s'. resumeDownload e i s = Inr s'
         \<and> effects s' = effects s @ [Kill p SIGCONT]
         \<and> getDownloadById i s' = Some (d\<lparr>status := Downloading\<rparr>)
         \<and> map id_col (downloads s') = map id_col (downloads s)
         \<and> map bookId (downloads s') = map bookId (downloads s)
         \<and> activeProcesses s' = activeProcesses s"
    if "getDownloadById i s = Some d" "liveHandle i s = Some p" for s d
    using that
    by (simp add: resumeDownload_live [OF that] getDownloadById_find find_updateWhere_id
          map_updateWhere_inv)
  have fb: "resumeDownload e i s = (case startDownload e b s of Inl err \<Rightarrow> Inl err | Inr (r, t) \<Rightarrow> Inr t)
        \<and> (resumeDownload e i s = Inr s' \<longrightarrow>
             map id_col (downloads s') = map id_col (downloads s)
             \<and> map bookId (downloads s') = map bookId (downloads s)
             \<and> (getDownloadByBookId b s = Some d \<longrightarrow>
                  map_option status (getDownloadById i s') = Some Downloading))"
    if h: "getDownloadById i s = Some d" "liveHandle i s = None" "bookId d = Some b" "b \<noteq> []"
  proof -
    note eq = resumeDownload_fallback [OF h, of e]
    have "map id_col (downloads s') = map id_col (downloads s)
             \<and> map bookId (downloads s') = map bookId (downloads s)
             \<and> (getDownloadByBookId b s = Some d \<longrightarrow>
                  map_option status (getDownloadById i s') = Some Downloading)"
      if "resumeDownload e i s = Inr s'"
    proof -
      from that eq obtain r where ok: "startDownload e b s = Inr (r, s')"
        by (auto split: sum.splits)
      have ne: "getDownloadByBookId b s \<noteq> None"
        using h(1,3) by (rule bookId_row_found)
      from startDownload_column [OF ok, of id_col] ne
      have a: "map id_col (downloads s') = map id_col (downloads s)" by simp
      from startDownload_column [OF ok, of bookId] ne
      have b: "map bookId (downloads s') = map bookId (downloads s)" by simp
      have c: "map_option status (getDownloadById i s') = Some Downloading"
        if "getDownloadByBookId b s = Some d"
        using startDownload_first_row_status [OF ok that] getDownloadById_id [OF h(1)] by simp
      from a b c show ?thesis by blast
    qed
    with eq show ?thesis by blast
  qed
  have rt: "getDownloadById i (pauseDownload i s) = Some (d\<lparr>status := Paused\<rparr>)
        \<and> liveHandle i (pauseDownload i s) = Some p
        \<and> (\<exists>s2. resumeDownload e i (pauseDownload i s) = Inr s2
              \<and> getDownloadById i s2 = Some (d\<lparr>status := Downloading\<rparr>)
              \<and> map id_col (downloads s2) = map id_col (downloads s)
              \<and> map bookId (downloads s2) = map bookId (downloads s))"
    if h: "getDownloadById i s = Some d" "liveHandle i s = Some p"
  proof -
    have g: "getDownloadById i (pauseDownload i s) = Some (d\<lparr>status := Paused\<rparr>)"
      using h by (simp add: pauseDownload_live [OF h(2)] getDownloadById_find find_updateWhere_id)
    have l: "liveHandle i (pauseDownload i s) = Some p"
      using h(2) by (simp add: pauseDownload_live [OF h(2)] liveHandle_def)
    have m: "map id_col (downloads (pauseDownload i s)) = map id_col (downloads s)"
      "map bookId (downloads (pauseDownload i s)) = map bookId (downloads s)"
      by (simp_all add: pauseDownload_live [OF h(2)] map_updateWhere_inv)
    from live [OF g l] m g l show ?thesis by auto
  qed
  from live fb rt show ?thesis by blast
qed

theorem resumeDownload_roundtrip_witness:
  "getDownloadById 1 runningState = Some (rowA Downloading)
   \<and> liveHandle 1 runningState = Some (exampleProc 1 ''a'' 1000000512)
   \<and> getDownloadById 1 (pauseDownload 1 runningState) = Some (rowA Paused)
   \<and> (\<exists>s2. resumeDownload (exampleEnv 3000000000) 1 (pauseDownload 1 runningState) = Inr s2
         \<and> getDownloadById 1 s2 = Some (rowA Downloading)
         \<and> map id_col (downloads s2) = [1])
   \<and> getDownloadById 1 staleState = Some staleRow
   \<and> liveHandle 1 staleState = None
   \<and> bookId staleRow = Some ''b''
   \<and> (\<exists>s3. resumeDownload (exampleEnv 3000000000) 1 staleState = Inr s3
         \<and> map bookId (downloads s3) = [Some ''b'']
         \<and> map_option status (getDownloadById 1 s3) = Some Downloading)"
proof -
  have g: "getDownloadById 1 runningState = Some (rowA Downloading)"
    by (simp add: getDownloadById_find runningState_def rowA_def)
  have l: "liveHandle 1 runningState = Some (exampleProc 1 ''a'' 1000000512)"
    by (simp add: liveHandle_def runningState_def exampleProc_def)
  have rp: "(rowA Downloading)\<lparr>status := Paused\<rparr> = rowA Paused"
    and rd: "(rowA Downloading)\<lparr>status := Downloading\<rparr> = rowA Downloading"
    by (simp_all add: rowA_def)
  have ids: "map id_col (downloads runningState) = [1]"
    by (simp add: runningState_def rowA_def)
  have gs: "getDownloadById 1 staleState = Some staleRow"
    by (simp add: getDownloadById_find staleState_def staleRow_def)
  have ls: "liveHandle 1 staleState = None"
    by (simp add: liveHandle_def staleState_def)
  have bs: "bookId staleRow = Some ''b''" and ne: "''b'' \<noteq> []"
    by (simp_all add: staleRow_def)
  have fs: "getDownloadByBookId ''b'' staleState = Some staleRow"
    by (simp add: getDownloadByBookId_find staleState_def staleRow_def)
  have bk: "map bookId (downloads staleState) = [Some ''b'']"
    by (simp add: staleState_def staleRow_def)
  have ok: "\<not> isl (resumeDownload (exampleEnv 3000000000) 1 staleState)"
    by (simp add: resumeDownload_def liveHandle_def getDownloadById_find truthy_def
          start_defs resolver_defs example_defs staleState_def staleRow_def)
  then obtain s3 where s3: "resumeDownload (exampleEnv 3000000000) 1 staleState = Inr s3"
    by (cases "resumeDownload (exampleEnv 3000000000) 1 staleState") auto
  note a = resumeDownload_roundtrip
    [of 1 runningState "rowA Downloading" "exampleProc 1 ''a'' 1000000512" "exampleEnv 3000000000"]
  note b = resumeDownload_roundtrip
    [of 1 staleState staleRow _ "exampleEnv 3000000000" "''b''" s3]
  from a g l
  have "getDownloadById 1 (pauseDownload 1 runningState) = Some ((rowA Downloading)\<lparr>status := Paused\<rparr>)"
    by blast
  then have c1: "getDownloadById 1 (pauseDownload 1 runningState) = Some (rowA Paused)"
    unfolding rp .
  from a g l
  have "\<exists>s2. resumeDownload (exampleEnv 3000000000) 1 (pauseDownload 1 runningState) = Inr s2
         \<and> getDownloadById 1 s2 = Some ((rowA Downloading)\<lparr>status := Downloading\<rparr>)
         \<and> map id_col (downloads s2) = map id_col (downloads runningState)"
    by blast
  then have c2: "\<exists>s2. resumeDownload (exampleEnv 3000000000) 1 (pauseDownload 1 runningState) = Inr s2
         \<and> getDownloadById 1 s2 = Some (rowA Downloading)
         \<and> map id_col (downloads s2) = [1]"
    unfolding rd ids .
  from b gs ls bs ne s3 fs
  have "map bookId (downloads s3) = map bookId (downloads staleState)
         \<and> map_option status (getDownloadById 1 s3) = Some Downloading"
    by blast
  then have c3: "map bookId (downloads s3) = [Some ''b'']
         \<and> map_option status (getDownloadById 1 s3) = Some Downloading"
    unfolding bk .
  with s3 have c4: "\<exists>s3. resumeDownload (exampleEnv 3000000000) 1 staleState = Inr s3
         \<and> map bookId (downloads s3) = [Some ''b'']
         \<and> map_option status (getDownloadById 1 s3) = Some Downloading"
    by (intro exI [of _ s3]) simp
  show ?thesis
    by (intro conjI) (rule g l c1 c2 gs ls bs c4)+
qed



end
